theory Spec2Isabelle
  imports Complex_Main "HOL-Library.Sublist"
begin

section \<open>JavaScript values\<close>

text \<open>
  The scripts handle values produced by \<^verbatim>\<open>JSON.parse\<close> and by the HTTP APIs.  A JavaScript
  number is a double: not-a-number, an infinity, or a finite value, which is a rational.
  A JavaScript string is a sequence of code units; here it is a \<^typ>\<open>string\<close>, one
  \<^typ>\<open>char\<close> per code unit.
\<close>

datatype jsnum = NaN | PosInf | NegInf | Fin rat

datatype json =
    JNull
  | JBool bool
  | JNum jsnum
  | JStr string
  | JArr "json list"
  | JObj "(string \<times> json) list"

text \<open>The result of a property read: \<open>None\<close> is \<^verbatim>\<open>undefined\<close>.\<close>

type_synonym jsval = "json option"

text \<open>Truthiness, as \<^verbatim>\<open>if (x)\<close>, \<^verbatim>\<open>x || y\<close> and \<^verbatim>\<open>x && y\<close> test it.\<close>

fun num_truthy :: "jsnum \<Rightarrow> bool" where
  "num_truthy NaN = False"
| "num_truthy (Fin q) = (q \<noteq> 0)"
| "num_truthy PosInf = True"
| "num_truthy NegInf = True"

fun truthy :: "json \<Rightarrow> bool" where
  "truthy JNull = False"
| "truthy (JBool b) = b"
| "truthy (JNum n) = num_truthy n"
| "truthy (JStr s) = (s \<noteq> [])"
| "truthy (JArr xs) = True"
| "truthy (JObj kvs) = True"

fun truthy_val :: "jsval \<Rightarrow> bool" where
  "truthy_val None = False"
| "truthy_val (Some v) = truthy v"

text \<open>
  \<^verbatim>\<open>v.k\<close> on a value that is not \<^verbatim>\<open>null\<close>: an object gives its own property, anything else
  gives \<^verbatim>\<open>undefined\<close> (none of the keys the scripts read is a built-in property of a string,
  number, boolean or array).  \<^verbatim>\<open>v?.k\<close> also gives \<^verbatim>\<open>undefined\<close> on \<^verbatim>\<open>null\<close> and
  \<^verbatim>\<open>undefined\<close>.
\<close>

fun get_prop :: "json \<Rightarrow> string \<Rightarrow> jsval" where
  "get_prop (JObj kvs) k = map_of kvs k"
| "get_prop _ k = None"

fun opt_prop :: "jsval \<Rightarrow> string \<Rightarrow> jsval" where
  "opt_prop None k = None"
| "opt_prop (Some v) k = get_prop v k"

section \<open>File names\<close>

text \<open>
  \<^verbatim>\<open>base.replace(/[^a-z0-9._-]/gi, "_")\<close>.  The class is written as two ranges of
  character codes (\<^verbatim>\<open>a-z\<close> is 97 to 122, \<^verbatim>\<open>0-9\<close> is 48 to 57) and three single
  characters.  The flag \<^verbatim>\<open>i\<close> compares canonicalised characters, and a character
  canonicalises to its upper-case form (a character of code 128 or more never
  canonicalises to one below 128, so it is left as it is here).  The flag \<^verbatim>\<open>g\<close> replaces
  every match; a match is one character.
\<close>

definition canonicalize :: "char \<Rightarrow> char" where
  "canonicalize c =
     (let n = (of_char c :: nat) in if 97 \<le> n \<and> n \<le> 122 then char_of (n - 32) else c)"

definition class_members :: "char list" where
  "class_members = map char_of ([97 ..< 123] @ [48 ..< 58] :: nat list) @ ''._-''"

definition negated_class_matches :: "char \<Rightarrow> bool" where
  "negated_class_matches c =
     (canonicalize c \<notin> set (map canonicalize class_members))"

fun toSafeFilename :: "string \<Rightarrow> string" where
  "toSafeFilename [] = []"
| "toSafeFilename (c # cs) =
     (if negated_class_matches c then CHR ''_'' else c) # toSafeFilename cs"

text \<open>The character set \<^verbatim>\<open>[A-Za-z0-9._-]\<close>, by character codes.\<close>

definition safe_char :: "char \<Rightarrow> bool" where
  "safe_char c =
     (let n = (of_char c :: nat) in
        (65 \<le> n \<and> n \<le> 90) \<or> (97 \<le> n \<and> n \<le> 122) \<or> (48 \<le> n \<and> n \<le> 57)
        \<or> n = 46 \<or> n = 95 \<or> n = 45)"


text \<open>
  \<^verbatim>\<open>path.resolve(root, name)\<close> and \<^verbatim>\<open>path.join(dir, name)\<close> for a normalised directory and a
  single path segment that is neither \<^verbatim>\<open>.\<close> nor \<^verbatim>\<open>..\<close>: the two joined by a separator.
\<close>

definition path_join :: "string \<Rightarrow> string \<Rightarrow> string" where
  "path_join dir name = dir @ ''/'' @ name"

section \<open>Strings\<close>

definition digit_char :: "nat \<Rightarrow> char" where
  "digit_char d = char_of (48 + d)"

fun show_nat :: "nat \<Rightarrow> string" where
  "show_nat n =
     (if n < 10 then [digit_char n] else show_nat (n div 10) @ [digit_char (n mod 10)])"

declare show_nat.simps [simp del]

fun join_with :: "string \<Rightarrow> string list \<Rightarrow> string" where
  "join_with sep [] = []"
| "join_with sep [x] = x"
| "join_with sep (x # y # ys) = x @ sep @ join_with sep (y # ys)"

text \<open>The first error of a list of results, or all the values.\<close>

fun sequence :: "(string + 'a) list \<Rightarrow> string + 'a list" where
  "sequence [] = Inr []"
| "sequence (Inl e # rs) = Inl e"
| "sequence (Inr x # rs) = (case sequence rs of Inl e \<Rightarrow> Inl e | Inr xs \<Rightarrow> Inr (x # xs))"

text \<open>
  The conversion to a string that a template literal applies to a value.  An array joins the
  strings of its elements with commas (\<^verbatim>\<open>null\<close> gives the empty string there).  An object
  gives \<^verbatim>\<open>[object Object]\<close>, unless it has an own property \<^verbatim>\<open>toString\<close>: a parsed value is
  never callable, and the conversion raises a TypeError.  The rendering of a number is a
  parameter.
\<close>

fun to_string :: "(jsnum \<Rightarrow> string) \<Rightarrow> json \<Rightarrow> string + string" where
  "to_string ns JNull = Inr ''null''"
| "to_string ns (JBool b) = Inr (if b then ''true'' else ''false'')"
| "to_string ns (JNum n) = Inr (ns n)"
| "to_string ns (JStr s) = Inr s"
| "to_string ns (JArr xs) =
     (case sequence (map (\<lambda>x. if x = JNull then Inr [] else to_string ns x) xs) of
        Inl e \<Rightarrow> Inl e
      | Inr ss \<Rightarrow> Inr (join_with '','' ss))"
| "to_string ns (JObj kvs) =
     (if map_of kvs ''toString'' \<noteq> None then Inl ''Cannot convert object to primitive value''
      else Inr ''[object Object]'')"

text \<open>\<^verbatim>\<open>`${a}<sep>${b}`\<close>: the left value is converted first.\<close>

definition template2 :: "(jsnum \<Rightarrow> string) \<Rightarrow> json \<Rightarrow> string \<Rightarrow> json \<Rightarrow> string + string" where
  "template2 ns a sep b =
     (case to_string ns a of
        Inl e \<Rightarrow> Inl e
      | Inr x \<Rightarrow> (case to_string ns b of Inl e \<Rightarrow> Inl e | Inr y \<Rightarrow> Inr (x @ sep @ y)))"

text \<open>\<^verbatim>\<open>a || b\<close> where \<open>a\<close> is a property read.\<close>

fun or_else :: "jsval \<Rightarrow> json \<Rightarrow> json" where
  "or_else None d = d"
| "or_else (Some v) d = (if truthy v then v else d)"

text \<open>\<^verbatim>\<open>content.split(/\r?\n/)\<close>: a line ends at a line feed, with the carriage return before it.\<close>

fun split_lines :: "string \<Rightarrow> string \<Rightarrow> string list" where
  "split_lines cur [] = [rev cur]"
| "split_lines cur (c # cs) =
     (if c = CHR 0x0A then rev cur # split_lines [] cs
      else if c = CHR 0x0D \<and> cs \<noteq> [] \<and> hd cs = CHR 0x0A then rev cur # split_lines [] (tl cs)
      else split_lines (c # cur) cs)"


section \<open>The environment\<close>

text \<open>
  What the scripts use and do not define: the built-in functions of the language, and the
  file system, the network and the SDK client, which answer a call from a state of the
  outside world \<open>'w\<close> and change it.  A call that throws (or a promise that rejects) answers
  \<open>Inl\<close> with the error's message.
\<close>

record builtins =
  json_parse :: "string \<Rightarrow> json option"
  json_stringify :: "json \<Rightarrow> string"
  number_to_string :: "jsnum \<Rightarrow> string"
  to_number :: "string option \<Rightarrow> jsnum"
  base64_decode :: "string \<Rightarrow> string"
  buffer_from_other :: "json \<Rightarrow> string + string"
  base64_encode :: "string \<Rightarrow> string"

text \<open>
  The answer of \<^verbatim>\<open>https.get\<close>: an \<^verbatim>\<open>error\<close> event, or a response with its status code
  (0 when it has none), its \<^verbatim>\<open>location\<close> header and its body.
\<close>

datatype http_reply = NetError string | HttpResponse nat "string option" string

record request =
  req_url :: json
  req_method :: string
  req_headers :: "(string \<times> string) list"
  req_body :: "string option"

text \<open>A \<^verbatim>\<open>fetch\<close> response; reading its body may fail.\<close>

record response =
  ok :: bool
  status :: nat
  statusText :: string
  body :: "string + string"

record 'w system = builtins +
  https_get :: "json \<Rightarrow> 'w \<Rightarrow> http_reply \<times> 'w"
  create_write_stream :: "string \<Rightarrow> 'w \<Rightarrow> 'w"
  pipe_to_file :: "string \<Rightarrow> string \<Rightarrow> 'w \<Rightarrow> 'w"
  unlink :: "string \<Rightarrow> 'w \<Rightarrow> 'w"
  exists_sync :: "string \<Rightarrow> 'w \<Rightarrow> bool"
  mkdir_sync :: "string \<Rightarrow> 'w \<Rightarrow> (string + unit) \<times> 'w"
  read_file_sync :: "string \<Rightarrow> 'w \<Rightarrow> (string + string) \<times> 'w"
  write_file_sync :: "string \<Rightarrow> string \<Rightarrow> 'w \<Rightarrow> (string + unit) \<times> 'w"
  fetch :: "request \<Rightarrow> 'w \<Rightarrow> (string + response) \<times> 'w"
  new_client :: "'w \<Rightarrow> (string + unit) \<times> 'w"
  generate_content :: "json \<Rightarrow> 'w \<Rightarrow> (string + json) \<times> 'w"

text \<open>The process: its arguments, its working directory and its environment variables.\<close>

record config =
  argv :: "string list"
  projectRoot :: string
  env_var :: "string \<Rightarrow> string option"

datatype backend = Google | OpenRouter

section \<open>Effects\<close>

text \<open>
  Every call to the outside world is recorded, in the order of the calls, together with
  the console output and three program points that have no call of their own: a line
  handed to \<^verbatim>\<open>JSON.parse\<close>, the start of the decoding of a response, and
  \<^verbatim>\<open>outputs.push\<close>.
\<close>

datatype event =
    ConsoleLog string
  | ConsoleWarn string
  | ConsoleError string
  | JsonParse string
  | HttpsGet json
  | CreateWriteStream string
  | PipeToFile string string
  | Unlink string
  | ExistsSync string
  | Mkdir string
  | ReadFile string
  | NewClient
  | GenerateContent json
  | Fetch request
  | Decode json
  | WriteFile string string
  | Push json

record 'w st =
  world :: 'w
  trace :: "event list"

type_synonym ('w, 'a) io = "'w st \<Rightarrow> (string + 'a) \<times> 'w st"

definition emit :: "event \<Rightarrow> 'w st \<Rightarrow> 'w st" where
  "emit e s = s\<lparr>trace := trace s @ [e]\<rparr>"

definition perform :: "event \<Rightarrow> ('w \<Rightarrow> 'a \<times> 'w) \<Rightarrow> 'w st \<Rightarrow> 'a \<times> 'w st" where
  "perform e f s = (case f (world s) of (r, w) \<Rightarrow> (r, \<lparr>world = w, trace = trace s @ [e]\<rparr>))"

definition update :: "event \<Rightarrow> ('w \<Rightarrow> 'w) \<Rightarrow> 'w st \<Rightarrow> 'w st" where
  "update e f s = \<lparr>world = f (world s), trace = trace s @ [e]\<rparr>"

section \<open>Downloading\<close>

text \<open>
  \<^verbatim>\<open>downloadFile(url, destPath)\<close> opens a write stream and requests the URL.  A redirect
  (a status from 300 to 399 with a \<^verbatim>\<open>location\<close> header) is followed once.  A status of 400
  or more rejects; otherwise the body is piped to the file and the promise resolves with
  the path when the stream has finished.  An \<^verbatim>\<open>error\<close> event of the first request unlinks
  the file and rejects, one of the second request rejects.  The model takes every request
  to end in a response or an \<^verbatim>\<open>error\<close> event, and the write stream to finish.
\<close>

definition download_failed :: "'w system \<Rightarrow> json \<Rightarrow> nat \<Rightarrow> string" where
  "download_failed env url code =
     ''Failed to download '' @ (case to_string (number_to_string env) url of Inr u \<Rightarrow> u | Inl e \<Rightarrow> e)
       @ '': '' @ show_nat code"

definition redirect_target :: "nat \<Rightarrow> string option \<Rightarrow> string option" where
  "redirect_target code location =
     (if code \<noteq> 0 \<and> 300 \<le> code \<and> code < 400
      then (case location of None \<Rightarrow> None | Some l \<Rightarrow> if l \<noteq> [] then Some l else None)
      else None)"

definition downloadFile :: "'w system \<Rightarrow> json \<Rightarrow> string \<Rightarrow> ('w, string) io" where
  "downloadFile env url destPath s =
     (let s1 = update (CreateWriteStream destPath) (create_write_stream env destPath) s in
      case perform (HttpsGet url) (https_get env url) s1 of
        (NetError err, s2) \<Rightarrow> (Inl err, update (Unlink destPath) (unlink env destPath) s2)
      | (HttpResponse code location content, s2) \<Rightarrow>
          (case redirect_target code location of
             Some target \<Rightarrow>
               (case perform (HttpsGet (JStr target)) (https_get env (JStr target)) s2 of
                  (NetError err, s3) \<Rightarrow> (Inl err, s3)
                | (HttpResponse code2 location2 content2, s3) \<Rightarrow>
                    if code2 \<noteq> 0 \<and> 400 \<le> code2 then (Inl (download_failed env url code2), s3)
                    else (Inr destPath,
                          update (PipeToFile destPath content2)
                            (pipe_to_file env destPath content2) s3))
           | None \<Rightarrow>
               if code \<noteq> 0 \<and> 400 \<le> code then (Inl (download_failed env url code), s2)
               else (Inr destPath,
                     update (PipeToFile destPath content) (pipe_to_file env destPath content) s2)))"


section \<open>Buffers\<close>

text \<open>\<^verbatim>\<open>Buffer.from(x, "base64")\<close>: a string is decoded, leniently; another value is left to the
  environment (most raise a TypeError).\<close>

definition buffer_from :: "'w system \<Rightarrow> json \<Rightarrow> string + string" where
  "buffer_from env v = (case v of JStr b64 \<Rightarrow> Inr (base64_decode env b64) | _ \<Rightarrow> buffer_from_other env v)"

section \<open>The Google backend\<close>

text \<open>\<^verbatim>\<open>v?.[0]\<close>.\<close>

fun opt_first :: "jsval \<Rightarrow> jsval" where
  "opt_first (Some (JArr xs)) = (case xs of [] \<Rightarrow> None | x # _ \<Rightarrow> Some x)"
| "opt_first (Some (JStr cs)) = (case cs of [] \<Rightarrow> None | c # _ \<Rightarrow> Some (JStr [c]))"
| "opt_first (Some (JObj kvs)) = map_of kvs ''0''"
| "opt_first _ = None"

text \<open>The values a \<^verbatim>\<open>for \<dots> of\<close> loop visits: a number, a boolean or an object is not
  iterable.\<close>

fun iterate :: "json \<Rightarrow> string + json list" where
  "iterate (JArr xs) = Inr xs"
| "iterate (JStr cs) = Inr (map (\<lambda>c. JStr [c]) cs)"
| "iterate _ = Inl ''is not iterable''"

definition gemini_prompt_text :: string where
  "gemini_prompt_text = ''Place the provided fragrance bottle onto the provided background image to create a professional studio shot with a clean solid look (white or light neutral). Use soft, diffused, even lighting with realistic reflections and gentle shadows that match the background. Keep the original product, label, and shape unchanged. Remove noise, glare, harsh shadows, and distracting elements. Ensure the final image is a widescreen 16:9 product image (e.g., 1920x1080) with the product centered. Do NOT stretch or distort the product; extend or blend the background canvas as needed to maintain 16:9. Return only the final enhanced image.''"

definition inline_data :: "string \<Rightarrow> string \<Rightarrow> json" where
  "inline_data mime b64 =
     JObj [(''inlineData'', JObj [(''mimeType'', JStr mime), (''data'', JStr b64)])]"

definition gemini_request :: "string \<Rightarrow> string option \<Rightarrow> json" where
  "gemini_request base64Image backgroundBase64 =
     JObj [(''model'', JStr ''gemini-2.5-flash-image-preview''),
           (''contents'', JArr ([JObj [(''text'', JStr gemini_prompt_text)],
                                inline_data ''image/jpeg'' base64Image]
              @ (case backgroundBase64 of
                   None \<Rightarrow> []
                 | Some bg \<Rightarrow> if bg \<noteq> [] then [inline_data ''image/png'' bg] else [])))]"

text \<open>The loop over the parts of the first candidate: the first part with inline data is
  returned; reading a property of a \<^verbatim>\<open>null\<close> part raises.\<close>

fun gemini_parts :: "'w system \<Rightarrow> json list \<Rightarrow> string + string" where
  "gemini_parts env [] = Inl ''Gemini did not return an image''"
| "gemini_parts env (part # parts) =
     (if part = JNull then Inl ''Cannot read properties of null (reading 'inlineData')''
      else (case opt_prop (get_prop part ''inlineData'') ''data'' of
              None \<Rightarrow> gemini_parts env parts
            | Some d \<Rightarrow> if truthy d then buffer_from env d else gemini_parts env parts))"

definition gemini_decode :: "'w system \<Rightarrow> json \<Rightarrow> string + string" where
  "gemini_decode env resp =
     (let parts = opt_prop (opt_prop (opt_first (get_prop resp ''candidates'')) ''content'') ''parts''
      in case iterate (or_else parts (JArr [])) of
           Inl e \<Rightarrow> Inl e
         | Inr ps \<Rightarrow> gemini_parts env ps)"

definition enhanceImageWithGemini ::
    "'w system \<Rightarrow> string \<Rightarrow> string option \<Rightarrow> ('w, string) io" where
  "enhanceImageWithGemini env inputBuffer backgroundBase64 s =
     (let req = gemini_request (base64_encode env inputBuffer) backgroundBase64 in
      case perform (GenerateContent req) (generate_content env req) s of
        (Inl e, s1) \<Rightarrow> (Inl e, s1)
      | (Inr resp, s1) \<Rightarrow> (gemini_decode env resp, emit (Decode resp) s1))"


section \<open>The OpenRouter backend\<close>

text \<open>
  \<^verbatim>\<open>/^data:image\/[a-zA-Z0-9+.-]+;base64,(.+)$/i\<close> on a string.  A literal matches a character
  with the same canonical form.  The class does not hold the semicolon, so its run ends
  where the semicolon must stand.  The dot matches any character but a line terminator.
\<close>

fun strip_literal :: "string \<Rightarrow> string \<Rightarrow> string option" where
  "strip_literal [] cs = Some cs"
| "strip_literal (p # ps) [] = None"
| "strip_literal (p # ps) (c # cs) =
     (if canonicalize c = canonicalize p then strip_literal ps cs else None)"

definition mime_members :: "char list" where
  "mime_members = map char_of ([97 ..< 123] @ [65 ..< 91] @ [48 ..< 58] :: nat list) @ ''+.-''"

definition mime_class_matches :: "char \<Rightarrow> bool" where
  "mime_class_matches c = (canonicalize c \<in> set (map canonicalize mime_members))"

definition dot_matches :: "char \<Rightarrow> bool" where
  "dot_matches c = (c \<noteq> CHR 0x0A \<and> c \<noteq> CHR 0x0D)"

definition data_url_payload :: "string \<Rightarrow> string option" where
  "data_url_payload str =
     (case strip_literal ''data:image/'' str of
        None \<Rightarrow> None
      | Some rest \<Rightarrow>
          if takeWhile mime_class_matches rest = [] then None
          else (case strip_literal '';base64,'' (dropWhile mime_class_matches rest) of
                  None \<Rightarrow> None
                | Some payload \<Rightarrow>
                    if payload \<noteq> [] \<and> list_all dot_matches payload then Some payload else None))"

fun extractBase64FromDataUrl :: "jsval \<Rightarrow> string option" where
  "extractBase64FromDataUrl (Some (JStr str)) = data_url_payload str"
| "extractBase64FromDataUrl _ = None"

definition fetchImageAsBuffer :: "'w system \<Rightarrow> json \<Rightarrow> ('w, string) io" where
  "fetchImageAsBuffer env url s =
     (let req = \<lparr>req_url = url, req_method = ''GET'', req_headers = [], req_body = None\<rparr> in
      case perform (Fetch req) (fetch env req) s of
        (Inl e, s1) \<Rightarrow> (Inl e, s1)
      | (Inr res, s1) \<Rightarrow>
          if \<not> ok res
          then (Inl (''Failed to fetch image url: '' @ show_nat (status res) @ '' '' @ statusText res), s1)
          else (body res, s1))"

text \<open>\<^verbatim>\<open>x?.type === "image_url" && x.image_url?.url\<close>: the URL when the test holds.\<close>

definition image_url_of :: "json \<Rightarrow> json option" where
  "image_url_of x =
     (if get_prop x ''type'' = Some (JStr ''image_url'')
      then (case opt_prop (get_prop x ''image_url'') ''url'' of
              None \<Rightarrow> None
            | Some url \<Rightarrow> if truthy url then Some url else None)
      else None)"

fun is_string :: "jsval \<Rightarrow> bool" where
  "is_string (Some (JStr cs)) = True"
| "is_string _ = False"

text \<open>
  A loop with an early \<^verbatim>\<open>return\<close>: one turn of its body answers \<open>Inr (Some buffer)\<close> when it
  returns, \<open>Inl\<close> when it throws, and \<open>Inr None\<close> when the loop goes on to the next element.
\<close>

fun first_of :: "('x \<Rightarrow> ('w, string option) io) \<Rightarrow> 'x list \<Rightarrow> ('w, string option) io" where
  "first_of f [] s = (Inr None, s)"
| "first_of f (x # xs) s =
     (case f x s of
        (Inl e, s1) \<Rightarrow> (Inl e, s1)
      | (Inr (Some buf), s1) \<Rightarrow> (Inr (Some buf), s1)
      | (Inr None, s1) \<Rightarrow> first_of f xs s1)"

text \<open>The body of the loop over \<^verbatim>\<open>message.images\<close>.\<close>

definition images_entry :: "'w system \<Rightarrow> json \<Rightarrow> ('w, string option) io" where
  "images_entry env img s =
     (case image_url_of img of
        Some url \<Rightarrow>
          (case extractBase64FromDataUrl (Some url) of
             Some b64 \<Rightarrow> (Inr (Some (base64_decode env b64)), s)
           | None \<Rightarrow>
               (case fetchImageAsBuffer env url s of
                  (Inl e, s1) \<Rightarrow> (Inl e, s1)
                | (Inr buf, s1) \<Rightarrow> (Inr (Some buf), s1)))
      | None \<Rightarrow>
          (if is_string (Some img)
           then (case extractBase64FromDataUrl (Some img) of
                   Some b64 \<Rightarrow> (Inr (Some (base64_decode env b64)), s)
                 | None \<Rightarrow> (Inr None, s))
           else (Inr None, s)))"

text \<open>Case 1 of the loop over the content parts, for a part of type \<^verbatim>\<open>output_image\<close>.\<close>

definition output_image_bytes :: "'w system \<Rightarrow> json \<Rightarrow> string + string option" where
  "output_image_bytes env part =
     (let data = get_prop part ''data'';
          base64 =
            (if truthy_val (get_prop part ''image_base64'') then get_prop part ''image_base64''
             else if truthy_val (get_prop part ''b64_json'') then get_prop part ''b64_json''
             else if truthy_val (get_prop part ''base64'') then get_prop part ''base64''
             else if is_string data then data else Some JNull)
      in case base64 of
           None \<Rightarrow> Inr None
         | Some b \<Rightarrow>
             if truthy b then (case buffer_from env b of Inl e \<Rightarrow> Inl e | Inr buf \<Rightarrow> Inr (Some buf))
             else if is_string data
             then (case extractBase64FromDataUrl data of
                     Some b64 \<Rightarrow> Inr (Some (base64_decode env b64))
                   | None \<Rightarrow> Inr None)
             else Inr None)"

definition text_data_url :: "json \<Rightarrow> string option" where
  "text_data_url part =
     (if get_prop part ''type'' = Some (JStr ''text'') \<and> is_string (get_prop part ''text'')
      then extractBase64FromDataUrl (get_prop part ''text'') else None)"

text \<open>The body of the loop over the content parts: the three cases, in their order.\<close>

definition content_part :: "'w system \<Rightarrow> json \<Rightarrow> ('w, string option) io" where
  "content_part env part s =
     (case (if get_prop part ''type'' = Some (JStr ''output_image'')
            then output_image_bytes env part else Inr None) of
        Inl e \<Rightarrow> (Inl e, s)
      | Inr (Some buf) \<Rightarrow> (Inr (Some buf), s)
      | Inr None \<Rightarrow>
          (case image_url_of part of
             Some url \<Rightarrow>
               (case fetchImageAsBuffer env url s of
                  (Inl e, s1) \<Rightarrow> (Inl e, s1)
                | (Inr buf, s1) \<Rightarrow> (Inr (Some buf), s1))
           | None \<Rightarrow>
               (case text_data_url part of
                  Some b64 \<Rightarrow> (Inr (Some (base64_decode env b64)), s)
                | None \<Rightarrow> (Inr None, s))))"

definition no_image :: string where
  "no_image = ''OpenRouter response did not include an image''"

definition extractImageBufferFromOpenRouterResponse :: "'w system \<Rightarrow> json \<Rightarrow> ('w, string) io" where
  "extractImageBufferFromOpenRouterResponse env json s =
     (let message = opt_prop (opt_first (get_prop json ''choices'')) ''message'';
          content = opt_prop message ''content'';
          images = opt_prop message ''images''
      in case (case images of Some (JArr imgs) \<Rightarrow> first_of (images_entry env) imgs s | _ \<Rightarrow> (Inr None, s)) of
           (Inl e, s1) \<Rightarrow> (Inl e, s1)
         | (Inr (Some buf), s1) \<Rightarrow> (Inr buf, s1)
         | (Inr None, s1) \<Rightarrow>
             (case (case content of Some (JArr parts) \<Rightarrow> first_of (content_part env) parts s1
                                  | _ \<Rightarrow> (Inr None, s1)) of
                (Inl e, s2) \<Rightarrow> (Inl e, s2)
              | (Inr (Some buf), s2) \<Rightarrow> (Inr buf, s2)
              | (Inr None, s2) \<Rightarrow>
                  (if is_string content
                   then (case extractBase64FromDataUrl content of
                           Some b64 \<Rightarrow> (Inr (base64_decode env b64), s2)
                         | None \<Rightarrow> (Inl no_image, s2))
                   else (Inl no_image, s2))))"

definition openrouter_prompt_text :: string where
  "openrouter_prompt_text = ''Place the provided fragrance bottle into a professional studio shot on a clean solid background (white or light neutral), with soft diffused, even lighting, realistic reflections and gentle shadows. Keep original product, label and shape unchanged. Remove noise, glare, harsh shadows, distracting elements. Ensure the final image is a widescreen 16:9 product image, with the product centered. Do NOT stretch or distort the product; extend the background canvas to maintain 16:9. Return only the final enhanced image.''"

definition env_or :: "config \<Rightarrow> string \<Rightarrow> string \<Rightarrow> string" where
  "env_or cfg var dflt = (case env_var cfg var of None \<Rightarrow> dflt | Some v \<Rightarrow> if v \<noteq> [] then v else dflt)"

definition image_part :: "json \<Rightarrow> json" where
  "image_part url = JObj [(''type'', JStr ''image_url''), (''image_url'', JObj [(''url'', url)])]"

definition openrouter_body :: "string \<Rightarrow> json \<Rightarrow> string option \<Rightarrow> json" where
  "openrouter_body promptText imageUrl backgroundDataUrl =
     JObj [(''model'', JStr ''google/gemini-2.5-flash-image-preview''),
           (''messages'',
              JArr [JObj [(''role'', JStr ''user''),
                          (''content'',
                             JArr ([JObj [(''type'', JStr ''text''), (''text'', JStr promptText)],
                                    image_part imageUrl]
                               @ (case backgroundDataUrl of
                                    None \<Rightarrow> []
                                  | Some bg \<Rightarrow> if bg \<noteq> [] then [image_part (JStr bg)] else [])))]]),
           (''modalities'', JArr [JStr ''image'', JStr ''text''])]"

definition enhanceImageWithOpenRouter ::
    "'w system \<Rightarrow> config \<Rightarrow> string \<Rightarrow> json \<Rightarrow> string option \<Rightarrow> ('w, string) io" where
  "enhanceImageWithOpenRouter env cfg promptText imageUrl backgroundDataUrl s =
     (let apiKey = env_or cfg ''OPENROUTER_API_KEY'' [] in
      if apiKey = [] then (Inl ''Missing OPENROUTER_API_KEY env var'', s)
      else
        let referer = env_or cfg ''OPENROUTER_SITE_URL'' ''https://localhost'';
            title = env_or cfg ''OPENROUTER_SITE_NAME'' ''banosser'';
            req = \<lparr>req_url = JStr ''https://openrouter.ai/api/v1/chat/completions'',
                   req_method = ''POST'',
                   req_headers = [(''Authorization'', ''Bearer '' @ apiKey),
                                  (''HTTP-Referer'', referer),
                                  (''X-Title'', title),
                                  (''Content-Type'', ''application/json'')],
                   req_body = Some (json_stringify env
                                (openrouter_body promptText imageUrl backgroundDataUrl))\<rparr>
        in case perform (Fetch req) (fetch env req) s of
             (Inl e, s1) \<Rightarrow> (Inl e, s1)
           | (Inr res, s1) \<Rightarrow>
               if \<not> ok res
               then (case body res of
                       Inl e \<Rightarrow> (Inl e, s1)
                     | Inr errText \<Rightarrow>
                         (Inl (''OpenRouter error: '' @ show_nat (status res) @ '' ''
                                 @ statusText res @ '' - '' @ errText), s1))
               else (case body res of
                       Inl e \<Rightarrow> (Inl e, s1)
                     | Inr txt \<Rightarrow>
                         (case json_parse env txt of
                            None \<Rightarrow> (Inl ''Unexpected token in JSON'', s1)
                          | Some json \<Rightarrow>
                              extractImageBufferFromOpenRouterResponse env json
                                (emit (Decode json) s1))))"


section \<open>The batch\<close>

text \<open>\<^verbatim>\<open>process.argv.indexOf("--limit")\<close> and the argument after it, through \<^verbatim>\<open>Number\<close>; no limit
  (\<^verbatim>\<open>undefined\<close>) without the flag.\<close>

fun index_of :: "'a \<Rightarrow> 'a list \<Rightarrow> nat option" where
  "index_of x [] = None"
| "index_of x (y # ys) = (if x = y then Some 0 else map_option Suc (index_of x ys))"

definition nth_arg :: "string list \<Rightarrow> nat \<Rightarrow> string option" where
  "nth_arg args i = (if i < length args then Some (args ! i) else None)"

definition parse_limit :: "'w system \<Rightarrow> string list \<Rightarrow> jsnum option" where
  "parse_limit env args =
     (case index_of ''--limit'' args of
        None \<Rightarrow> None
      | Some i \<Rightarrow> Some (to_number env (nth_arg args (i + 1))))"

text \<open>\<^verbatim>\<open>processed >= limit\<close> for a count and a number.\<close>

fun count_ge :: "nat \<Rightarrow> jsnum \<Rightarrow> bool" where
  "count_ge n NaN = False"
| "count_ge n PosInf = False"
| "count_ge n NegInf = True"
| "count_ge n (Fin q) = (q \<le> of_nat n)"

text \<open>\<^verbatim>\<open>limit && processed >= limit\<close>.\<close>

fun limit_reached :: "jsnum option \<Rightarrow> nat \<Rightarrow> bool" where
  "limit_reached None n = False"
| "limit_reached (Some l) n = (num_truthy l \<and> count_ge n l)"

text \<open>\<^verbatim>\<open>{...item, localUpdatedFile: finalFile}\<close>: the own properties of the item in their order;
  a property of that name keeps its place and takes the new value, else the new property
  comes last.\<close>

fun set_field :: "string \<Rightarrow> json \<Rightarrow> (string \<times> json) list \<Rightarrow> (string \<times> json) list" where
  "set_field k v [] = [(k, v)]"
| "set_field k v (p # ps) = (if fst p = k then (k, v) # ps else p # set_field k v ps)"

fun own_properties :: "json \<Rightarrow> (string \<times> json) list" where
  "own_properties (JObj kvs) = kvs"
| "own_properties (JArr xs) = zip (map show_nat [0 ..< length xs]) xs"
| "own_properties (JStr cs) = zip (map show_nat [0 ..< length cs]) (map (\<lambda>c. JStr [c]) cs)"
| "own_properties _ = []"

definition output_record :: "json \<Rightarrow> string \<Rightarrow> json" where
  "output_record item finalFile =
     JObj (set_field ''localUpdatedFile'' (JStr finalFile) (own_properties item))"

definition and_then :: "('w, 'a) io \<Rightarrow> ('a \<Rightarrow> ('w, 'b) io) \<Rightarrow> ('w, 'b) io" where
  "and_then m f s = (case m s of (Inl e, s1) \<Rightarrow> (Inl e, s1) | (Inr x, s1) \<Rightarrow> f x s1)"

definition ensureDirSync :: "'w system \<Rightarrow> string \<Rightarrow> ('w, unit) io" where
  "ensureDirSync env dirPath s =
     (let s1 = emit (ExistsSync dirPath) s in
      if \<not> exists_sync env dirPath (world s) then perform (Mkdir dirPath) (mkdir_sync env dirPath) s1
      else (Inr (), s1))"

definition workingDir :: "config \<Rightarrow> string" where
  "workingDir cfg = path_join (projectRoot cfg) ''working''"

definition finalDir :: "config \<Rightarrow> string" where
  "finalDir cfg = path_join (projectRoot cfg) ''final''"

definition jsonlPath :: "config \<Rightarrow> string" where
  "jsonlPath cfg = path_join (projectRoot cfg) ''fragrances_with_images_fast.jsonl''"

definition bgPath :: "config \<Rightarrow> string" where
  "bgPath cfg = path_join (projectRoot cfg) ''bg.png''"

text \<open>The background image, in base 64: absent when the file is missing (with a warning) or
  cannot be read (silently).\<close>

definition read_background :: "'w system \<Rightarrow> config \<Rightarrow> 'w st \<Rightarrow> string option \<times> 'w st" where
  "read_background env cfg s =
     (let s1 = emit (ExistsSync (bgPath cfg)) s in
      if exists_sync env (bgPath cfg) (world s)
      then (case perform (ReadFile (bgPath cfg)) (read_file_sync env (bgPath cfg)) s1 of
              (Inl e, s2) \<Rightarrow> (None, s2)
            | (Inr bgBuffer, s2) \<Rightarrow> (Some (base64_encode env bgBuffer), s2))
      else (None,
            emit (ConsoleWarn ''Background image ./bg.png not found. Proceeding without background.'') s1))"

text \<open>The background as each backend passes it on: the base 64 text, or a data URL of it.\<close>

definition background_for :: "backend \<Rightarrow> string option \<Rightarrow> string option" where
  "background_for b bg =
     (case b of Google \<Rightarrow> bg | OpenRouter \<Rightarrow> map_option (\<lambda>b64. ''data:image/png;base64,'' @ b64) bg)"

text \<open>The statements of the \<^verbatim>\<open>try\<close> block that can throw, in their order.\<close>

definition try_steps ::
    "backend \<Rightarrow> 'w system \<Rightarrow> config \<Rightarrow> string option \<Rightarrow> json \<Rightarrow> string \<Rightarrow> string \<Rightarrow> string
      \<Rightarrow> ('w, unit) io" where
  "try_steps b env cfg background imageUrl baseName workingFile finalFile s =
     (let s1 = emit (ConsoleLog (''Began working on: '' @ baseName @ ''.jpg'')) s in
      case b of
        Google \<Rightarrow>
          and_then (downloadFile env imageUrl workingFile) (\<lambda>_.
          and_then (perform (ReadFile workingFile) (read_file_sync env workingFile)) (\<lambda>inputBuffer.
          and_then (enhanceImageWithGemini env inputBuffer background) (\<lambda>enhancedBuffer.
            perform (WriteFile finalFile enhancedBuffer)
              (write_file_sync env finalFile enhancedBuffer)))) s1
      | OpenRouter \<Rightarrow>
          and_then (downloadFile env imageUrl workingFile) (\<lambda>_.
          and_then (enhanceImageWithOpenRouter env cfg openrouter_prompt_text imageUrl background)
            (\<lambda>enhancedBuffer.
            perform (WriteFile finalFile enhancedBuffer)
              (write_file_sync env finalFile enhancedBuffer))) s1)"

record 'w loop_state =
  outputs :: "json list"
  index :: nat
  processed :: nat
  io :: "'w st"

datatype 'w loop_result =
    Continue "'w loop_state"
  | Break "'w loop_state"
  | Abort string "'w loop_state"

definition failed_prefix :: "backend \<Rightarrow> string" where
  "failed_prefix b = (case b of Google \<Rightarrow> ''Failed: '' | OpenRouter \<Rightarrow> ''Failed (OpenRouter): '')"

definition truthy_url :: "json \<Rightarrow> json option" where
  "truthy_url item =
     (case get_prop item ''imageUrl'' of None \<Rightarrow> None | Some u \<Rightarrow> if truthy u then Some u else None)"

definition item_brand :: "json \<Rightarrow> json" where
  "item_brand item = or_else (get_prop item ''brand'') (JStr ''brand'')"

definition item_name :: "json \<Rightarrow> nat \<Rightarrow> json" where
  "item_name item idx = or_else (get_prop item ''name'') (JStr (''item_'' @ show_nat idx))"

definition base_name :: "string \<Rightarrow> string \<Rightarrow> string" where
  "base_name brandStr nameStr = toSafeFilename (brandStr @ ''_'' @ nameStr)"

definition working_file :: "config \<Rightarrow> string \<Rightarrow> string" where
  "working_file cfg baseName = path_join (workingDir cfg) (baseName @ ''.jpg'')"

definition final_file :: "config \<Rightarrow> string \<Rightarrow> string" where
  "final_file cfg baseName = path_join (finalDir cfg) (baseName @ ''.jpg'')"

text \<open>
  The statements of the loop body before the \<^verbatim>\<open>try\<close> block.  Reading \<^verbatim>\<open>item.brand\<close> of
  \<^verbatim>\<open>null\<close> raises, and so can the conversion of the brand or the name to a string; both
  branches of the test on the image URL convert the brand, then the name, before anything
  else, so the conversion stands once, before the test.  The answer is the two strings and
  the image URL when it is truthy.
\<close>

definition prepare_item ::
    "'w system \<Rightarrow> json \<Rightarrow> nat \<Rightarrow> string + (string \<times> string \<times> json option)" where
  "prepare_item env item idx =
     (if item = JNull then Inl ''Cannot read properties of null (reading 'brand')''
      else (case to_string (number_to_string env) (item_brand item) of
              Inl e \<Rightarrow> Inl e
            | Inr brandStr \<Rightarrow>
                (case to_string (number_to_string env) (item_name item idx) of
                   Inl e \<Rightarrow> Inl e
                 | Inr nameStr \<Rightarrow> Inr (brandStr, nameStr, truthy_url item))))"

text \<open>
  The body of the \<^verbatim>\<open>for await\<close> loop for one item.  An error before the \<^verbatim>\<open>try\<close> block leaves
  the loop and \<^verbatim>\<open>main\<close>; an error inside it is caught and printed.
\<close>

definition loop_body ::
    "backend \<Rightarrow> 'w system \<Rightarrow> config \<Rightarrow> string option \<Rightarrow> jsnum option \<Rightarrow> json \<Rightarrow> 'w loop_state
      \<Rightarrow> 'w loop_result" where
  "loop_body b env cfg background limit item ls =
     (let ls1 = ls\<lparr>index := index ls + 1\<rparr> in
      case prepare_item env item (index ls1) of
        Inl e \<Rightarrow> Abort e ls1
      | Inr (brandStr, nameStr, None) \<Rightarrow>
          Continue (ls1\<lparr>io := emit (ConsoleWarn (''Skipping item without imageUrl: ''
                                     @ brandStr @ '' '' @ nameStr)) (io ls1)\<rparr>)
      | Inr (brandStr, nameStr, Some imageUrl) \<Rightarrow>
          let baseName = base_name brandStr nameStr;
              workingFile = working_file cfg baseName;
              finalFile = final_file cfg baseName
          in case try_steps b env cfg background imageUrl baseName workingFile finalFile
                    (io ls1) of
               (Inr u, s1) \<Rightarrow>
                 let entry = output_record item finalFile;
                     s2 = emit (ConsoleLog (''Completed work: '' @ baseName @ ''.jpg''))
                            (emit (Push entry) s1);
                     ls2 = ls1\<lparr>outputs := outputs ls1 @ [entry],
                                processed := processed ls1 + 1, io := s2\<rparr>
                 in if limit_reached limit (processed ls2) then Break ls2 else Continue ls2
             | (Inl msg, s1) \<Rightarrow>
                 Continue (ls1\<lparr>io := emit (ConsoleError (failed_prefix b @ brandStr @ '' - ''
                                            @ nameStr @ '': '' @ msg)) s1\<rparr>))"

text \<open>
  \<^verbatim>\<open>readJsonl\<close> is a generator.  Its first two statements read the file and keep the
  non-empty lines; each turn of its loop parses one line, and yields the value or warns.
\<close>

definition readJsonl_lines :: "'w system \<Rightarrow> string \<Rightarrow> ('w, string list) io" where
  "readJsonl_lines env filePath s =
     (case perform (ReadFile filePath) (read_file_sync env filePath) s of
        (Inl e, s1) \<Rightarrow> (Inl e, s1)
      | (Inr content, s1) \<Rightarrow> (Inr (filter (\<lambda>l. l \<noteq> []) (split_lines [] content)), s1))"

definition readJsonl_turn :: "'w system \<Rightarrow> string \<Rightarrow> 'w st \<Rightarrow> json option \<times> 'w st" where
  "readJsonl_turn env line s =
     (case json_parse env line of
        Some v \<Rightarrow> (Some v, emit (JsonParse line) s)
      | None \<Rightarrow> (None, emit (ConsoleWarn (''Skipping invalid JSONL line: '' @ line))
                        (emit (JsonParse line) s)))"


datatype 'w run = Finished "'w loop_state" | Uncaught string "'w loop_state"

text \<open>The \<^verbatim>\<open>for await\<close> loop: the generator is resumed for the next item, then the body runs.\<close>

fun main_loop ::
    "backend \<Rightarrow> 'w system \<Rightarrow> config \<Rightarrow> string option \<Rightarrow> jsnum option \<Rightarrow> string list
      \<Rightarrow> 'w loop_state \<Rightarrow> 'w run" where
  "main_loop b env cfg background limit [] ls = Finished ls"
| "main_loop b env cfg background limit (line # rest) ls =
     (case readJsonl_turn env line (io ls) of
        (None, s1) \<Rightarrow> main_loop b env cfg background limit rest (ls\<lparr>io := s1\<rparr>)
      | (Some item, s1) \<Rightarrow>
          (case loop_body b env cfg background limit item (ls\<lparr>io := s1\<rparr>) of
             Continue ls1 \<Rightarrow> main_loop b env cfg background limit rest ls1
           | Break ls1 \<Rightarrow> Finished ls1
           | Abort e ls1 \<Rightarrow> Uncaught e ls1))"

definition dataJsonPath :: "config \<Rightarrow> string" where
  "dataJsonPath cfg = path_join (finalDir cfg) ''data.json''"

text \<open>The statements after the loop: the manifest is written, and the count logged.\<close>

definition write_manifest :: "'w system \<Rightarrow> config \<Rightarrow> json list \<Rightarrow> ('w, unit) io" where
  "write_manifest env cfg outs s =
     (case perform (WriteFile (dataJsonPath cfg) (json_stringify env (JArr outs)))
             (write_file_sync env (dataJsonPath cfg) (json_stringify env (JArr outs))) s of
        (Inl e, s1) \<Rightarrow> (Inl e, s1)
      | (Inr u, s1) \<Rightarrow>
          (Inr (), emit (ConsoleLog (''Wrote '' @ show_nat (length outs) @ '' records to ''
                                    @ dataJsonPath cfg)) s1))"

text \<open>The statements before the loop.\<close>

definition prepare :: "backend \<Rightarrow> 'w system \<Rightarrow> config \<Rightarrow> ('w, string option) io" where
  "prepare b env cfg s =
     (case read_background env cfg s of
        (bg, s1) \<Rightarrow>
          and_then (ensureDirSync env (workingDir cfg)) (\<lambda>_.
          and_then (ensureDirSync env (finalDir cfg)) (\<lambda>_.
          and_then (case b of Google \<Rightarrow> perform NewClient (new_client env)
                            | OpenRouter \<Rightarrow> (\<lambda>s. (Inr (), s))) (\<lambda>_ s.
            (Inr (background_for b bg), s)))) s1)"

definition initial_state :: "'w st \<Rightarrow> 'w loop_state" where
  "initial_state s = \<lparr>outputs = [], index = 0, processed = 0, io = s\<rparr>"

definition main :: "backend \<Rightarrow> 'w system \<Rightarrow> config \<Rightarrow> ('w, json list) io" where
  "main b env cfg s =
     (case prepare b env cfg s of
        (Inl e, s1) \<Rightarrow> (Inl e, s1)
      | (Inr background, s1) \<Rightarrow>
          (case readJsonl_lines env (jsonlPath cfg) s1 of
             (Inl e, s2) \<Rightarrow> (Inl e, s2)
           | (Inr lines, s2) \<Rightarrow>
               (case main_loop b env cfg background (parse_limit env (argv cfg)) lines
                       (initial_state s2) of
                  Uncaught e ls \<Rightarrow> (Inl e, io ls)
                | Finished ls \<Rightarrow>
                    (case write_manifest env cfg (outputs ls) (io ls) of
                       (Inl e, s3) \<Rightarrow> (Inl e, s3)
                     | (Inr u, s3) \<Rightarrow> (Inr (outputs ls), s3)))))"

text \<open>\<^verbatim>\<open>main().catch(\<dots>)\<close>: an error that leaves \<^verbatim>\<open>main\<close> is printed and the exit code set to 1.\<close>

definition script :: "backend \<Rightarrow> 'w system \<Rightarrow> config \<Rightarrow> 'w \<Rightarrow> nat \<times> 'w st" where
  "script b env cfg w =
     (case main b env cfg \<lparr>world = w, trace = []\<rparr> of
        (Inl e, s) \<Rightarrow> (1, emit (ConsoleError e) s)
      | (Inr outs, s) \<Rightarrow> (0, s))"

section \<open>Observing a run\<close>

text \<open>
  The linear flow of one record, as a machine that reads the recorded events: the line is
  read, the image downloaded, the API called (for the Google backend the call begins with
  reading the downloaded file back), the response decoded (for the OpenRouter backend this
  may fetch the image from a URL), the final file written, the record appended.  A step is
  accepted only in the phase its predecessor leaves; reading the next line is accepted in
  every phase, since a record can end at any step; console output changes nothing.
\<close>

datatype phase = Idle | Read | Downloading | Calling | Decoding | Written | Appended

fun step_phase :: "phase \<Rightarrow> event \<Rightarrow> phase option" where
  "step_phase p (JsonParse l) = Some Read"
| "step_phase p (CreateWriteStream f) = (if p = Read then Some Downloading else None)"
| "step_phase p (HttpsGet u) = (if p = Downloading then Some Downloading else None)"
| "step_phase p (PipeToFile f c) = (if p = Downloading then Some Downloading else None)"
| "step_phase p (Unlink f) = (if p = Downloading then Some Downloading else None)"
| "step_phase p (ReadFile f) = (if p = Downloading \<or> p = Calling then Some Calling else None)"
| "step_phase p (GenerateContent r) =
     (if p = Downloading \<or> p = Calling then Some Calling else None)"
| "step_phase p (Fetch r) =
     (if req_method r = ''POST''
      then (if p = Downloading \<or> p = Calling then Some Calling else None)
      else (if p = Decoding then Some Decoding else None))"
| "step_phase p (Decode j) = (if p = Calling then Some Decoding else None)"
| "step_phase p (WriteFile f d) = (if p = Decoding then Some Written else None)"
| "step_phase p (Push r) = (if p = Written then Some Appended else None)"
| "step_phase p (ConsoleLog m) = Some p"
| "step_phase p (ConsoleWarn m) = Some p"
| "step_phase p (ConsoleError m) = Some p"
| "step_phase p (ExistsSync f) = None"
| "step_phase p (Mkdir f) = None"
| "step_phase p NewClient = None"

fun advance :: "phase \<Rightarrow> event list \<Rightarrow> phase option" where
  "advance p [] = Some p"
| "advance p (e # es) = (case step_phase p e of None \<Rightarrow> None | Some q \<Rightarrow> advance q es)"


text \<open>The files of the recorded events: the write streams opened, the files written, and the
  records appended.\<close>

fun streams :: "event list \<Rightarrow> string list" where
  "streams [] = []"
| "streams (CreateWriteStream f # es) = f # streams es"
| "streams (e # es) = streams es"

fun written :: "event list \<Rightarrow> (string \<times> string) list" where
  "written [] = []"
| "written (WriteFile f d # es) = (f, d) # written es"
| "written (e # es) = written es"

fun pushed :: "event list \<Rightarrow> json list" where
  "pushed [] = []"
| "pushed (Push r # es) = r # pushed es"
| "pushed (e # es) = pushed es"

fun parsed_lines :: "event list \<Rightarrow> string list" where
  "parsed_lines [] = []"
| "parsed_lines (JsonParse l # es) = l # parsed_lines es"
| "parsed_lines (e # es) = parsed_lines es"

text \<open>A file name of the form \<^verbatim>\<open><base>.jpg\<close> in a directory, the base made of safe characters.\<close>

definition image_path :: "string \<Rightarrow> string \<Rightarrow> bool" where
  "image_path dir f =
     (let n = length dir + 1; name = drop n f; k = length name - 4 in
        take n f = dir @ ''/'' \<and> 4 \<le> length name \<and> drop k name = ''.jpg''
        \<and> list_all safe_char (take k name))"




text \<open>The state a run of the loop ends in.\<close>

fun run_state :: "'w run \<Rightarrow> 'w loop_state" where
  "run_state (Finished ls) = ls"
| "run_state (Uncaught e ls) = ls"

fun result_state :: "'w loop_result \<Rightarrow> 'w loop_state" where
  "result_state (Continue ls) = ls"
| "result_state (Break ls) = ls"
| "result_state (Abort e ls) = ls"

text \<open>
  The envelope shapes as one table: the entries of \<^verbatim>\<open>message.images\<close>, then the parts of an
  array content or a string content, each with its rule; the first entry that yields bytes
  or raises decides.
\<close>

datatype candidate = ImagesEntry json | ContentPart json | ContentString string

definition envelope_candidates :: "json \<Rightarrow> candidate list" where
  "envelope_candidates json =
     (let message = opt_prop (opt_first (get_prop json ''choices'')) ''message'' in
        (case opt_prop message ''images'' of Some (JArr imgs) \<Rightarrow> map ImagesEntry imgs | _ \<Rightarrow> [])
        @ (case opt_prop message ''content'' of
             Some (JArr parts) \<Rightarrow> map ContentPart parts
           | Some (JStr c) \<Rightarrow> [ContentString c]
           | _ \<Rightarrow> []))"

fun try_candidate :: "'w system \<Rightarrow> candidate \<Rightarrow> ('w, string option) io" where
  "try_candidate env (ImagesEntry img) s = images_entry env img s"
| "try_candidate env (ContentPart part) s = content_part env part s"
| "try_candidate env (ContentString c) s =
     (Inr (map_option (base64_decode env) (data_url_payload c)), s)"

definition first_yield :: "'w system \<Rightarrow> candidate list \<Rightarrow> ('w, string) io" where
  "first_yield env cands s =
     (case first_of (try_candidate env) cands s of
        (Inl e, s1) \<Rightarrow> (Inl e, s1)
      | (Inr (Some buf), s1) \<Rightarrow> (Inr buf, s1)
      | (Inr None, s1) \<Rightarrow> (Inl no_image, s1))"

text \<open>Events that open no stream, write no file, append no record and read no line.\<close>

definition quiet :: "event list \<Rightarrow> bool" where
  "quiet evs = (streams evs = [] \<and> written evs = [] \<and> pushed evs = [] \<and> parsed_lines evs = [])"

text \<open>The events recorded between two states.\<close>

definition new_events :: "'w st \<Rightarrow> 'w st \<Rightarrow> event list" where
  "new_events s s' = drop (length (trace s)) (trace s')"

text \<open>
  The call of the external API for one record, as each backend makes it: the Google backend
  reads the downloaded file back and passes its bytes, the OpenRouter backend passes the
  URL.  The answer is the decoded image.
\<close>

definition api_step ::
    "backend \<Rightarrow> 'w system \<Rightarrow> config \<Rightarrow> string option \<Rightarrow> json \<Rightarrow> string \<Rightarrow> ('w, string) io" where
  "api_step b env cfg background imageUrl workingFile =
     (case b of
        Google \<Rightarrow>
          and_then (perform (ReadFile workingFile) (read_file_sync env workingFile))
            (\<lambda>inputBuffer. enhanceImageWithGemini env inputBuffer background)
      | OpenRouter \<Rightarrow>
          enhanceImageWithOpenRouter env cfg openrouter_prompt_text imageUrl background)"


section \<open>A small environment\<close>

text \<open>
  A concrete environment to run the scripts in: files are a list of paths with contents,
  hosts named \<^verbatim>\<open>ok\<close> answer a request, the others are not found, and both APIs answer with an
  image.  Four input lines are known to its parser.
\<close>

definition line_a :: string where
  \<open>line_a = ''{"brand":"Afnan","name":"9am","imageUrl":"https://ok/a.jpg"}''\<close>

definition item_a :: json where
  "item_a = JObj [(''brand'', JStr ''Afnan''), (''name'', JStr ''9am''),
                  (''imageUrl'', JStr ''https://ok/a.jpg'')]"

definition line_b :: string where
  \<open>line_b = ''{"name":"x y","imageUrl":"https://down/b.jpg"}''\<close>

definition item_b :: json where
  "item_b = JObj [(''name'', JStr ''x y''), (''imageUrl'', JStr ''https://down/b.jpg'')]"

definition line_c :: string where
  \<open>line_c = ''{"imageUrl":"https://ok/c.jpg","localUpdatedFile":"old"}''\<close>

definition item_c :: json where
  "item_c = JObj [(''imageUrl'', JStr ''https://ok/c.jpg''), (''localUpdatedFile'', JStr ''old'')]"

definition line_n :: string where
  \<open>line_n = ''{"brand":"Zara"}''\<close>

definition item_n :: json where
  "item_n = JObj [(''brand'', JStr ''Zara'')]"

definition openrouter_reply_text :: string where
  "openrouter_reply_text = ''reply''"

definition openrouter_reply :: json where
  "openrouter_reply =
     JObj [(''choices'', JArr [JObj [(''message'',
        JObj [(''content'', JStr []),
              (''images'', JArr [JObj [(''type'', JStr ''image_url''),
                  (''image_url'', JObj [(''url'', JStr ''data:image/png;base64,UE5H'')])]])])]])]"

definition gemini_reply :: json where
  "gemini_reply =
     JObj [(''candidates'', JArr [JObj [(''content'', JObj [(''parts'',
        JArr [JObj [(''text'', JStr ''done'')],
              JObj [(''inlineData'', JObj [(''mimeType'', JStr ''image/png''),
                                          (''data'', JStr ''UE5H'')])]])])]])]"

definition demo_parse :: "string \<Rightarrow> json option" where
  "demo_parse = map_of [(line_a, item_a), (line_b, item_b), (line_c, item_c), (line_n, item_n),
                        (openrouter_reply_text, openrouter_reply)]"

definition demo_number :: "string option \<Rightarrow> jsnum" where
  "demo_number arg =
     (if arg = Some ''0'' then Fin 0 else if arg = Some ''1'' then Fin 1
      else if arg = Some ''2'' then Fin 2 else NaN)"

definition demo_get :: "json \<Rightarrow> (string \<times> string) list \<Rightarrow> http_reply \<times> (string \<times> string) list" where
  "demo_get url w =
     (case url of
        JStr u \<Rightarrow> if take 11 u = ''https://ok/'' then (HttpResponse 200 None ''JPEG'', w)
                  else (NetError ''ENOTFOUND'', w)
      | _ \<Rightarrow> (NetError ''ERR_INVALID_URL'', w))"

definition demo_fetch ::
    "request \<Rightarrow> (string \<times> string) list \<Rightarrow> (string + response) \<times> (string \<times> string) list" where
  "demo_fetch req w =
     (if req_method req = ''POST''
      then (Inr \<lparr>ok = True, status = 200, statusText = ''OK'', body = Inr openrouter_reply_text\<rparr>, w)
      else (Inl ''fetch failed'', w))"

definition demo_read :: "string \<Rightarrow> (string \<times> string) list \<Rightarrow> (string + string) \<times> (string \<times> string) list" where
  "demo_read f w = (case map_of w f of None \<Rightarrow> (Inl ''ENOENT'', w) | Some c \<Rightarrow> (Inr c, w))"

definition demo_env :: "(string \<times> string) list system" where
  "demo_env =
     \<lparr>json_parse = demo_parse,
      json_stringify = (\<lambda>j. case j of JArr xs \<Rightarrow> ''array of '' @ show_nat (length xs) | _ \<Rightarrow> ''value''),
      number_to_string = (\<lambda>n. ''number''),
      to_number = demo_number,
      base64_decode = (\<lambda>b64. ''decoded '' @ b64),
      buffer_from_other = (\<lambda>v. Inl ''The first argument must be of type string''),
      base64_encode = (\<lambda>buf. ''encoded '' @ buf),
      https_get = demo_get,
      create_write_stream = (\<lambda>f w. (f, []) # w),
      pipe_to_file = (\<lambda>f c w. (f, c) # w),
      unlink = (\<lambda>f w. filter (\<lambda>fc. fst fc \<noteq> f) w),
      exists_sync = (\<lambda>f w. map_of w f \<noteq> None),
      mkdir_sync = (\<lambda>f w. (Inr (), (f, []) # w)),
      read_file_sync = demo_read,
      write_file_sync = (\<lambda>f d w. (Inr (), (f, d) # w)),
      fetch = demo_fetch,
      new_client = (\<lambda>w. (Inr (), w)),
      generate_content = (\<lambda>req w. (Inr gemini_reply, w))\<rparr>"

text \<open>The same environment on a disk that refuses to write image files.\<close>

definition read_only_env :: "(string \<times> string) list system" where
  "read_only_env =
     demo_env\<lparr>write_file_sync :=
       (\<lambda>f d w. if drop (length f - 4) f = ''.jpg'' then (Inl ''EACCES'', w) else (Inr (), (f, d) # w))\<rparr>"

definition demo_cfg :: "string list \<Rightarrow> config" where
  "demo_cfg args =
     \<lparr>argv = args, projectRoot = ''/p'', env_var = map_of [(''OPENROUTER_API_KEY'', ''key'')]\<rparr>"

text \<open>A disk that holds the input file with the given lines.\<close>

definition demo_disk :: "string list \<Rightarrow> (string \<times> string) list" where
  "demo_disk lines = [(''/p/fragrances_with_images_fast.jsonl'', concat (map (\<lambda>l. l @ [CHR 0x0A]) lines))]"

section \<open>Success and failure of one record\<close>

text \<open>
  The error of the first step that fails when a record is processed from a state: the
  download of the source image, then the call of the API with the decoding of its response,
  then the writing of the final file; \<open>None\<close> when the three succeed.
\<close>

definition attempt_error ::
    "backend \<Rightarrow> 'w system \<Rightarrow> config \<Rightarrow> string option \<Rightarrow> json \<Rightarrow> string \<Rightarrow> string \<Rightarrow> string
      \<Rightarrow> 'w st \<Rightarrow> string option" where
  "attempt_error b env cfg background imageUrl baseName workingFile finalFile s =
     (case downloadFile env imageUrl workingFile
             (emit (ConsoleLog (''Began working on: '' @ baseName @ ''.jpg'')) s) of
        (Inl e, s1) \<Rightarrow> Some e
      | (Inr x, s1) \<Rightarrow>
          (case api_step b env cfg background imageUrl workingFile s1 of
             (Inl e, s2) \<Rightarrow> Some e
           | (Inr enhancedBuffer, s2) \<Rightarrow>
               (case write_file_sync env finalFile enhancedBuffer (world s2) of
                  (Inl e, w) \<Rightarrow> Some e
                | (Inr u, w) \<Rightarrow> None)))"

text \<open>A reply whose first shape names an image by a URL to fetch, and whose content is a data
  URL.\<close>

definition blocked_reply :: json where
  "blocked_reply =
     JObj [(''choices'', JArr [JObj [(''message'',
        JObj [(''content'', JStr ''data:image/png;base64,UE5H''),
              (''images'', JArr [JObj [(''type'', JStr ''image_url''),
                  (''image_url'', JObj [(''url'', JStr ''https://ok/out.png'')])]])])]])]"

section \<open>The characters of a file name\<close>

lemma canonicalize_code:
  "(of_char (canonicalize c) :: nat) =
     (if 97 \<le> (of_char c :: nat) \<and> (of_char c :: nat) \<le> 122 then of_char c - 32 else of_char c)"
proof (cases "97 \<le> (of_char c :: nat) \<and> (of_char c :: nat) \<le> 122")
  case True
  then have "(of_char c - 32 :: nat) < 256" by arith
  then have "(of_char c - 32 :: nat) mod 256 = of_char c - 32" by (rule mod_less)
  with True show ?thesis by (simp add: canonicalize_def Let_def)
next
  case False
  then have "canonicalize c = c" by (auto simp: canonicalize_def Let_def)
  with False show ?thesis by auto
qed

lemma char_of_image_iff:
  assumes "\<forall>n\<in>S. n < (256::nat)"
  shows "c \<in> char_of ` S \<longleftrightarrow> (of_char c :: nat) \<in> S"
proof
  assume "c \<in> char_of ` S"
  then obtain n where n: "n \<in> S" "c = char_of n" by blast
  with assms have "n < 256" by blast
  then have "n mod 256 = n" by (rule mod_less)
  with n show "(of_char c :: nat) \<in> S" by simp
next
  assume "(of_char c :: nat) \<in> S"
  then have "char_of (of_char c :: nat) \<in> char_of ` S" by (rule imageI)
  then show "c \<in> char_of ` S" by simp
qed

lemma canonicalize_char_of_lower:
  assumes "97 \<le> n" "n < (123::nat)"
  shows "canonicalize (char_of n) = char_of (n - 32)"
proof -
  from assms have "n < 256" by arith
  then have "n mod 256 = n" by (rule mod_less)
  with assms show ?thesis by (simp add: canonicalize_def Let_def)
qed

lemma canonicalize_char_of_other:
  assumes "n < (97::nat)"
  shows "canonicalize (char_of n) = char_of n"
proof -
  from assms have "n < 256" by arith
  then have "n mod 256 = n" by (rule mod_less)
  with assms show ?thesis by (simp add: canonicalize_def Let_def)
qed

lemma canonical_lower: "canonicalize ` char_of ` {97 ..< 123::nat} = char_of ` {65 ..< 91::nat}"
proof (rule set_eqI, rule iffI)
  fix c assume "c \<in> canonicalize ` char_of ` {97 ..< 123::nat}"
  then obtain n :: nat where n: "97 \<le> n" "n < 123" "c = canonicalize (char_of n)" by auto
  then have "c = char_of (n - 32)" by (simp add: canonicalize_char_of_lower)
  moreover from n have "n - 32 \<in> {65 ..< 91}" by auto
  ultimately show "c \<in> char_of ` {65 ..< 91::nat}" by blast
next
  fix c assume "c \<in> char_of ` {65 ..< 91::nat}"
  then obtain m :: nat where m: "65 \<le> m" "m < 91" "c = char_of m" by auto
  then have "canonicalize (char_of (m + 32)) = c"
    by (simp add: canonicalize_char_of_lower)
  moreover from m have "m + 32 \<in> {97 ..< 123}" by auto
  ultimately show "c \<in> canonicalize ` char_of ` {97 ..< 123::nat}" by blast
qed

lemma canonical_digits: "canonicalize ` char_of ` {48 ..< 58::nat} = char_of ` {48 ..< 58::nat}"
proof -
  have "(canonicalize \<circ> char_of) ` {48 ..< 58::nat} = char_of ` {48 ..< 58::nat}"
    by (rule image_cong [OF refl]) (simp add: canonicalize_char_of_other)
  then show ?thesis by (simp add: image_comp)
qed

lemma punct_codes:
  "char_of (46::nat) = CHR ''.''" "char_of (95::nat) = CHR ''_''" "char_of (45::nat) = CHR ''-''"
  by code_simp+

lemma canonical_punct: "canonicalize ` set ''._-'' = char_of ` {46, 95, 45::nat}"
  by (simp add: canonicalize_def punct_codes)

lemma canonical_members:
  "set (map canonicalize class_members) =
     char_of ` ({65 ..< 91} \<union> {48 ..< 58} \<union> {46, 95, 45::nat})"
proof -
  have "set (map canonicalize class_members) =
      canonicalize ` char_of ` {97 ..< 123::nat} \<union> canonicalize ` char_of ` {48 ..< 58::nat}
      \<union> canonicalize ` set ''._-''"
    unfolding class_members_def set_map set_append image_Un set_upt ..
  also have "\<dots> = char_of ` {65 ..< 91::nat} \<union> char_of ` {48 ..< 58::nat} \<union> char_of ` {46, 95, 45::nat}"
    by (simp only: canonical_lower canonical_digits canonical_punct)
  finally show ?thesis by (simp only: image_Un)
qed

lemma negated_class_matches_iff: "negated_class_matches c \<longleftrightarrow> \<not> safe_char c"
proof -
  have small: "\<forall>n\<in>{65 ..< 91} \<union> {48 ..< 58} \<union> {46, 95, 45::nat}. n < 256" by auto
  have "negated_class_matches c \<longleftrightarrow>
      (of_char (canonicalize c) :: nat) \<notin> {65 ..< 91} \<union> {48 ..< 58} \<union> {46, 95, 45}"
    unfolding negated_class_matches_def canonical_members char_of_image_iff [OF small] ..
  also have "\<dots> \<longleftrightarrow> \<not> safe_char c"
    unfolding canonicalize_code safe_char_def Let_def by auto
  finally show ?thesis .
qed

lemma toSafeFilename_map:
  "toSafeFilename s = map (\<lambda>c. if safe_char c then c else CHR ''_'') s"
  by (induction s) (simp_all add: negated_class_matches_iff)

lemma safe_char_underscore: "safe_char CHR ''_''"
  by (simp add: safe_char_def)

lemma toSafeFilename_safe: "list_all safe_char (toSafeFilename s)"
  by (induction s) (simp_all add: negated_class_matches_iff safe_char_underscore)

section \<open>Recorded events\<close>

lemma trace_emit [simp]: "trace (emit e s) = trace s @ [e]"
  by (simp add: emit_def)

lemma world_emit [simp]: "world (emit e s) = world s"
  by (simp add: emit_def)

lemma trace_update [simp]: "trace (update e f s) = trace s @ [e]"
  by (simp add: update_def)

lemma perform_trace: "perform e f s = (r, s') \<Longrightarrow> trace s' = trace s @ [e]"
  by (auto simp: perform_def split: prod.splits)

lemma perform_result: "perform e f s = (r, s') \<Longrightarrow> r = fst (f (world s))"
  by (auto simp: perform_def split: prod.splits)

lemma advance_append:
  "advance p (xs @ ys) = (case advance p xs of None \<Rightarrow> None | Some q \<Rightarrow> advance q ys)"
  by (induction xs arbitrary: p) (auto split: option.splits)

lemma streams_append [simp]: "streams (xs @ ys) = streams xs @ streams ys"
  by (induction xs rule: streams.induct) auto

lemma written_append [simp]: "written (xs @ ys) = written xs @ written ys"
  by (induction xs rule: written.induct) auto

lemma pushed_append [simp]: "pushed (xs @ ys) = pushed xs @ pushed ys"
  by (induction xs rule: pushed.induct) auto

lemma parsed_lines_append [simp]: "parsed_lines (xs @ ys) = parsed_lines xs @ parsed_lines ys"
  by (induction xs rule: parsed_lines.induct) auto

lemma quiet_append [simp]: "quiet (xs @ ys) \<longleftrightarrow> quiet xs \<and> quiet ys"
  by (auto simp: quiet_def)

lemma quiet_Nil [simp]: "quiet []"
  by (simp add: quiet_def)

lemma downloadFile_events:
  assumes "downloadFile env url f s = (r, s')"
  shows "\<exists>evs. trace s' = trace s @ CreateWriteStream f # evs
           \<and> advance Downloading evs = Some Downloading \<and> quiet evs"
  using assms
  by (auto simp: downloadFile_def Let_def perform_def update_def quiet_def
      split: prod.splits http_reply.splits option.splits if_splits)

section \<open>Events of the decoder\<close>

lemma fetchImageAsBuffer_events:
  assumes "fetchImageAsBuffer env url s = (r, s')"
  shows "\<exists>evs. trace s' = trace s @ evs \<and> advance Decoding evs = Some Decoding \<and> quiet evs"
  using assms
  by (auto simp: fetchImageAsBuffer_def Let_def perform_def quiet_def split: prod.splits sum.splits if_splits)

lemma images_entry_events:
  assumes "images_entry env img s = (r, s')"
  shows "\<exists>evs. trace s' = trace s @ evs \<and> advance Decoding evs = Some Decoding \<and> quiet evs"
  using assms
  by (auto simp: images_entry_def split: option.splits prod.splits sum.splits if_splits
      dest: fetchImageAsBuffer_events)

lemma content_part_events:
  assumes "content_part env part s = (r, s')"
  shows "\<exists>evs. trace s' = trace s @ evs \<and> advance Decoding evs = Some Decoding \<and> quiet evs"
  using assms
  by (auto simp: content_part_def split: option.splits prod.splits sum.splits if_splits
      dest: fetchImageAsBuffer_events)

lemma first_of_events:
  assumes run: "first_of f xs s = (r, s')"
    and step: "\<And>x s r s'. f x s = (r, s') \<Longrightarrow>
      \<exists>evs. trace s' = trace s @ evs \<and> advance Decoding evs = Some Decoding \<and> quiet evs"
  shows "\<exists>evs. trace s' = trace s @ evs \<and> advance Decoding evs = Some Decoding \<and> quiet evs"
  using run
proof (induction xs arbitrary: s)
  case Nil
  then show ?case by simp
next
  case (Cons x xs)
  obtain r1 s1 where fx: "f x s = (r1, s1)" by (cases "f x s")
  from step [OF fx] obtain evs1 where e1:
    "trace s1 = trace s @ evs1" "advance Decoding evs1 = Some Decoding" "quiet evs1" by blast
  show ?case
  proof (cases "r1 = Inr None")
    case True
    with Cons.prems fx have "first_of f xs s1 = (r, s')" by simp
    from Cons.IH [OF this] obtain evs2 where e2:
      "trace s' = trace s1 @ evs2" "advance Decoding evs2 = Some Decoding" "quiet evs2" by blast
    from e1 e2 have "trace s' = trace s @ (evs1 @ evs2)"
      "advance Decoding (evs1 @ evs2) = Some Decoding" "quiet (evs1 @ evs2)"
      by (simp_all add: advance_append)
    then show ?thesis by blast
  next
    case False
    with Cons.prems fx have "s' = s1" by (auto split: sum.splits option.splits)
    with e1 show ?thesis by blast
  qed
qed

lemma extract_events:
  assumes "extractImageBufferFromOpenRouterResponse env json s = (r, s')"
  shows "\<exists>evs. trace s' = trace s @ evs \<and> advance Decoding evs = Some Decoding \<and> quiet evs"
proof -
  define message where "message = opt_prop (opt_first (get_prop json ''choices'')) ''message''"
  define content where "content = opt_prop message ''content''"
  define images where "images = opt_prop message ''images''"
  define phase1 where "phase1 = (case images of Some (JArr imgs) \<Rightarrow> first_of (images_entry env) imgs s
                                   | _ \<Rightarrow> (Inr None, s))"
  obtain r1 s1 where p1: "phase1 = (r1, s1)" by (cases phase1)
  have "\<exists>evs. trace s1 = trace s @ evs \<and> advance Decoding evs = Some Decoding \<and> quiet evs"
  proof (cases "\<exists>imgs. images = Some (JArr imgs)")
    case True
    then obtain imgs where "images = Some (JArr imgs)" by blast
    with p1 have "first_of (images_entry env) imgs s = (r1, s1)" by (simp add: phase1_def)
    then show ?thesis by (rule first_of_events) (rule images_entry_events)
  next
    case False
    with p1 have "s1 = s" by (auto simp: phase1_def split: option.splits json.splits)
    then show ?thesis by simp
  qed
  then obtain evs1 where e1:
    "trace s1 = trace s @ evs1" "advance Decoding evs1 = Some Decoding" "quiet evs1" by blast
  define phase2 where "phase2 = (case content of Some (JArr parts) \<Rightarrow> first_of (content_part env) parts s1
                                   | _ \<Rightarrow> (Inr None, s1))"
  obtain r2 s2 where p2: "phase2 = (r2, s2)" by (cases phase2)
  have "\<exists>evs. trace s2 = trace s1 @ evs \<and> advance Decoding evs = Some Decoding \<and> quiet evs"
  proof (cases "\<exists>parts. content = Some (JArr parts)")
    case True
    then obtain parts where "content = Some (JArr parts)" by blast
    with p2 have "first_of (content_part env) parts s1 = (r2, s2)" by (simp add: phase2_def)
    then show ?thesis by (rule first_of_events) (rule content_part_events)
  next
    case False
    with p2 have "s2 = s1" by (auto simp: phase2_def split: option.splits json.splits)
    then show ?thesis by simp
  qed
  then obtain evs2 where e2:
    "trace s2 = trace s1 @ evs2" "advance Decoding evs2 = Some Decoding" "quiet evs2" by blast
  from assms p1 p2 have "s' = s1 \<or> s' = s2"
    unfolding extractImageBufferFromOpenRouterResponse_def Let_def
      message_def [symmetric] content_def [symmetric] images_def [symmetric]
      phase1_def [symmetric]
    by (auto simp: phase2_def split: sum.splits option.splits if_splits)
  then show ?thesis
  proof
    assume "s' = s1" with e1 show ?thesis by blast
  next
    assume "s' = s2"
    with e1 e2 have "trace s' = trace s @ (evs1 @ evs2)"
      "advance Decoding (evs1 @ evs2) = Some Decoding" "quiet (evs1 @ evs2)"
      by (simp_all add: advance_append)
    then show ?thesis by blast
  qed
qed

section \<open>Events of the API call\<close>

lemma enhanceImageWithGemini_events:
  assumes "enhanceImageWithGemini env buf bg s = (r, s')"
  shows "\<exists>evs q. trace s' = trace s @ evs \<and> advance Calling evs = Some q \<and> quiet evs
           \<and> (case r of Inr x \<Rightarrow> q = Decoding | Inl e \<Rightarrow> True)"
  using assms
  by (auto simp: enhanceImageWithGemini_def Let_def perform_def quiet_def
      split: prod.splits sum.splits)

lemma enhanceImageWithOpenRouter_events:
  assumes "enhanceImageWithOpenRouter env cfg prompt url bg s = (r, s')"
  shows "\<exists>evs q. trace s' = trace s @ evs \<and> advance Downloading evs = Some q \<and> quiet evs
           \<and> (case r of Inr x \<Rightarrow> q = Decoding | Inl e \<Rightarrow> True)"
proof (cases "env_or cfg ''OPENROUTER_API_KEY'' [] = []")
  case True
  with assms have "s' = s" "r = Inl ''Missing OPENROUTER_API_KEY env var''"
    by (auto simp: enhanceImageWithOpenRouter_def Let_def)
  then show ?thesis by simp
next
  case False
  define req where "req = \<lparr>req_url = JStr ''https://openrouter.ai/api/v1/chat/completions'',
                   req_method = ''POST'',
                   req_headers = [(''Authorization'', ''Bearer '' @ env_or cfg ''OPENROUTER_API_KEY'' []),
                                  (''HTTP-Referer'', env_or cfg ''OPENROUTER_SITE_URL'' ''https://localhost''),
                                  (''X-Title'', env_or cfg ''OPENROUTER_SITE_NAME'' ''banosser''),
                                  (''Content-Type'', ''application/json'')],
                   req_body = Some (json_stringify env (openrouter_body prompt url bg))\<rparr>"
  have post: "req_method req = ''POST''" by (simp add: req_def)
  obtain r1 s1 where p1: "perform (Fetch req) (fetch env req) s = (r1, s1)"
    by (cases "perform (Fetch req) (fetch env req) s")
  then have t1: "trace s1 = trace s @ [Fetch req]" by (rule perform_trace)
  have a1: "advance Downloading [Fetch req] = Some Calling" using post by simp
  have q1: "quiet [Fetch req]" by (simp add: quiet_def)
  from assms False p1 have run: "(case r1 of
        Inl e \<Rightarrow> (Inl e, s1)
      | Inr res \<Rightarrow>
          if \<not> ok res
          then (case body res of
                  Inl e \<Rightarrow> (Inl e, s1)
                | Inr errText \<Rightarrow>
                    (Inl (''OpenRouter error: '' @ show_nat (status res) @ '' ''
                            @ statusText res @ '' - '' @ errText), s1))
          else (case body res of
                  Inl e \<Rightarrow> (Inl e, s1)
                | Inr txt \<Rightarrow>
                    (case json_parse env txt of
                       None \<Rightarrow> (Inl ''Unexpected token in JSON'', s1)
                     | Some json \<Rightarrow>
                         extractImageBufferFromOpenRouterResponse env json
                           (emit (Decode json) s1)))) = (r, s')"
    by (simp add: enhanceImageWithOpenRouter_def Let_def req_def)
  show ?thesis
  proof (cases "\<exists>res txt json. r1 = Inr res \<and> ok res \<and> body res = Inr txt \<and> json_parse env txt = Some json")
    case True
    then obtain res btxt json where ok: "r1 = Inr res" "ok res" "body res = Inr btxt"
      "json_parse env btxt = Some json" by blast
    with run have "extractImageBufferFromOpenRouterResponse env json (emit (Decode json) s1) = (r, s')"
      by simp
    from extract_events [OF this] obtain evs where e:
      "trace s' = trace (emit (Decode json) s1) @ evs" "advance Decoding evs = Some Decoding"
      "quiet evs" by blast
    from t1 e have "trace s' = trace s @ (Fetch req # Decode json # evs)" by simp
    moreover from post e have "advance Downloading (Fetch req # Decode json # evs) = Some Decoding"
      by simp
    moreover from e have "quiet (Fetch req # Decode json # evs)" by (simp add: quiet_def)
    ultimately show ?thesis by (auto split: sum.splits)
  next
    case False
    with run have "s' = s1" "\<exists>e. r = Inl e"
      by (auto split: sum.splits if_splits option.splits) metis+
    with t1 a1 q1 show ?thesis by auto
  qed
qed


lemma and_then_cases:
  assumes "and_then m f s = (r, s')"
  obtains (fail) e where "m s = (Inl e, s')" "r = Inl e"
    | (pass) x s1 where "m s = (Inr x, s1)" "f x s1 = (r, s')"
  using assms by (auto simp: and_then_def split: prod.splits sum.splits)

lemma advance_trans:
  "advance p xs = Some q \<Longrightarrow> advance q ys = Some r \<Longrightarrow> advance p (xs @ ys) = Some r"
  by (simp add: advance_append)

lemma google_steps_events:
  assumes "and_then (downloadFile env url wfile) (\<lambda>_.
          and_then (perform (ReadFile wfile) (read_file_sync env wfile)) (\<lambda>inputBuffer.
          and_then (enhanceImageWithGemini env inputBuffer bg) (\<lambda>enhancedBuffer.
            perform (WriteFile ffile enhancedBuffer)
              (write_file_sync env ffile enhancedBuffer)))) s1 = (r, s')"
  shows "\<exists>evs q. trace s' = trace s1 @ CreateWriteStream wfile # evs
           \<and> advance Downloading evs = Some q
           \<and> streams evs = [] \<and> pushed evs = [] \<and> parsed_lines evs = []
           \<and> (case r of Inr u \<Rightarrow> q = Written \<and> (\<exists>d. written evs = [(ffile, d)])
                        | Inl e \<Rightarrow> written evs = [] \<or> (\<exists>d. written evs = [(ffile, d)]))"
  using assms
proof (cases rule: and_then_cases)
  case (fail e)
  from downloadFile_events [OF fail(1)] fail(2) show ?thesis
    by (auto simp: quiet_def)
next
  case (pass x s2)
  from downloadFile_events [OF pass(1)] obtain evs1 where e1:
    "trace s2 = trace s1 @ CreateWriteStream wfile # evs1"
    "advance Downloading evs1 = Some Downloading" "quiet evs1" by blast
  from pass(2) show ?thesis
  proof (cases rule: and_then_cases)
    case (fail e)
    from perform_trace [OF fail(1)] e1
    have "trace s' = trace s1 @ CreateWriteStream wfile # (evs1 @ [ReadFile wfile])" by simp
    moreover from advance_trans [OF e1(2), of "[ReadFile wfile]" Calling]
    have "advance Downloading (evs1 @ [ReadFile wfile]) = Some Calling" by simp
    moreover from e1 have "quiet (evs1 @ [ReadFile wfile])" by (simp add: quiet_def)
    ultimately show ?thesis using fail(2) by (auto simp: quiet_def)
  next
    case (pass buf s3)
    from perform_trace [OF pass(1)] e1
    have t3: "trace s3 = trace s1 @ CreateWriteStream wfile # (evs1 @ [ReadFile wfile])" by simp
    from advance_trans [OF e1(2), of "[ReadFile wfile]" Calling]
    have a3: "advance Downloading (evs1 @ [ReadFile wfile]) = Some Calling" by simp
    from e1 have q3: "quiet (evs1 @ [ReadFile wfile])" by (simp add: quiet_def)
    from pass(2) show ?thesis
    proof (cases rule: and_then_cases)
      case (fail e)
      from enhanceImageWithGemini_events [OF fail(1)] obtain evs4 q4 where e4:
        "trace s' = trace s3 @ evs4" "advance Calling evs4 = Some q4" "quiet evs4" by blast
      from t3 e4 have "trace s' = trace s1 @ CreateWriteStream wfile # (evs1 @ [ReadFile wfile] @ evs4)"
        by simp
      moreover from advance_trans [OF a3 e4(2)]
      have "advance Downloading (evs1 @ [ReadFile wfile] @ evs4) = Some q4" by simp
      moreover from q3 e4 have "quiet (evs1 @ [ReadFile wfile] @ evs4)" by (simp add: quiet_def)
      ultimately show ?thesis using fail(2) by (auto simp: quiet_def)
    next
      case (pass out s4)
      from enhanceImageWithGemini_events [OF pass(1)] obtain evs4 where e4:
        "trace s4 = trace s3 @ evs4" "advance Calling evs4 = Some Decoding" "quiet evs4" by auto
      from perform_trace [OF pass(2)] t3 e4
      have "trace s' = trace s1 @ CreateWriteStream wfile
              # (evs1 @ [ReadFile wfile] @ evs4 @ [WriteFile ffile out])"
        by simp
      moreover from advance_trans [OF advance_trans [OF a3 e4(2)], of "[WriteFile ffile out]" Written]
      have "advance Downloading (evs1 @ [ReadFile wfile] @ evs4 @ [WriteFile ffile out]) = Some Written"
        by simp
      moreover from q3 e4 have "quiet (evs1 @ [ReadFile wfile] @ evs4)" by (simp add: quiet_def)
      ultimately show ?thesis by (auto simp: quiet_def split: sum.splits)
    qed
  qed
qed

section \<open>Events of the try block\<close>

lemma openrouter_steps_events:
  assumes "and_then (downloadFile env url wfile) (\<lambda>_.
          and_then (enhanceImageWithOpenRouter env cfg prompt url bg)
            (\<lambda>enhancedBuffer.
            perform (WriteFile ffile enhancedBuffer)
              (write_file_sync env ffile enhancedBuffer))) s1 = (r, s')"
  shows "\<exists>evs q. trace s' = trace s1 @ CreateWriteStream wfile # evs
           \<and> advance Downloading evs = Some q
           \<and> streams evs = [] \<and> pushed evs = [] \<and> parsed_lines evs = []
           \<and> (case r of Inr u \<Rightarrow> q = Written \<and> (\<exists>d. written evs = [(ffile, d)])
                        | Inl e \<Rightarrow> written evs = [] \<or> (\<exists>d. written evs = [(ffile, d)]))"
  using assms
proof (cases rule: and_then_cases)
  case (fail e)
  from downloadFile_events [OF fail(1)] fail(2) show ?thesis
    by (auto simp: quiet_def)
next
  case (pass x s2)
  from downloadFile_events [OF pass(1)] obtain evs1 where e1:
    "trace s2 = trace s1 @ CreateWriteStream wfile # evs1"
    "advance Downloading evs1 = Some Downloading" "quiet evs1" by blast
  from pass(2) show ?thesis
  proof (cases rule: and_then_cases)
    case (fail e)
    from enhanceImageWithOpenRouter_events [OF fail(1)] obtain evs4 q4 where e4:
      "trace s' = trace s2 @ evs4" "advance Downloading evs4 = Some q4" "quiet evs4" by blast
    from e1 e4 have "trace s' = trace s1 @ CreateWriteStream wfile # (evs1 @ evs4)"
      by simp
    moreover from advance_trans [OF e1(2) e4(2)]
    have "advance Downloading (evs1 @ evs4) = Some q4" .
    moreover from e1 e4 have "quiet (evs1 @ evs4)" by simp
    ultimately show ?thesis using fail(2) by (auto simp: quiet_def)
  next
    case (pass out s4)
    from enhanceImageWithOpenRouter_events [OF pass(1)] obtain evs4 where e4:
      "trace s4 = trace s2 @ evs4" "advance Downloading evs4 = Some Decoding" "quiet evs4" by auto
    from perform_trace [OF pass(2)] e1 e4
    have "trace s' = trace s1 @ CreateWriteStream wfile # (evs1 @ evs4 @ [WriteFile ffile out])"
      by simp
    moreover from advance_trans [OF advance_trans [OF e1(2) e4(2)], of "[WriteFile ffile out]" Written]
    have "advance Downloading (evs1 @ evs4 @ [WriteFile ffile out]) = Some Written"
      by simp
    moreover from e1 e4 have "quiet (evs1 @ evs4)" by simp
    ultimately show ?thesis by (auto simp: quiet_def split: sum.splits)
  qed
qed

lemma try_steps_events:
  assumes "try_steps b env cfg bg url base wfile ffile s = (r, s')"
  shows "\<exists>evs q. trace s' = trace s @ ConsoleLog (''Began working on: '' @ base @ ''.jpg'')
                              # CreateWriteStream wfile # evs
           \<and> advance Downloading evs = Some q
           \<and> streams evs = [] \<and> pushed evs = [] \<and> parsed_lines evs = []
           \<and> (case r of Inr u \<Rightarrow> q = Written \<and> (\<exists>d. written evs = [(ffile, d)])
                        | Inl e \<Rightarrow> written evs = [] \<or> (\<exists>d. written evs = [(ffile, d)]))"
proof (cases b)
  case Google
  with assms google_steps_events [of env url wfile bg ffile
      "emit (ConsoleLog (''Began working on: '' @ base @ ''.jpg'')) s" r s']
  show ?thesis by (simp add: try_steps_def Let_def)
next
  case OpenRouter
  with assms openrouter_steps_events [of env url wfile cfg openrouter_prompt_text bg ffile
      "emit (ConsoleLog (''Began working on: '' @ base @ ''.jpg'')) s" r s']
  show ?thesis by (simp add: try_steps_def Let_def)
qed

text \<open>The three outcomes of the loop body.\<close>

lemma loop_body_abort:
  assumes "prepare_item env item (index ls + 1) = Inl e"
  shows "loop_body b env cfg bg limit item ls = Abort e (ls\<lparr>index := index ls + 1\<rparr>)"
  using assms by (simp add: loop_body_def Let_def)

lemma loop_body_skip:
  assumes "prepare_item env item (index ls + 1) = Inr (brandStr, nameStr, None)"
  shows "loop_body b env cfg bg limit item ls =
     Continue (ls\<lparr>index := index ls + 1,
                 io := emit (ConsoleWarn (''Skipping item without imageUrl: ''
                              @ brandStr @ '' '' @ nameStr)) (io ls)\<rparr>)"
  using assms by (simp add: loop_body_def Let_def)

lemma loop_body_failure:
  assumes "prepare_item env item (index ls + 1) = Inr (brandStr, nameStr, Some url)"
    and "try_steps b env cfg bg url (base_name brandStr nameStr)
           (working_file cfg (base_name brandStr nameStr))
           (final_file cfg (base_name brandStr nameStr)) (io ls) = (Inl msg, s1)"
  shows "loop_body b env cfg bg limit item ls =
     Continue (ls\<lparr>index := index ls + 1,
                 io := emit (ConsoleError (failed_prefix b @ brandStr @ '' - '' @ nameStr
                                           @ '': '' @ msg)) s1\<rparr>)"
  using assms by (simp add: loop_body_def Let_def)

lemma loop_body_success:
  assumes "prepare_item env item (index ls + 1) = Inr (brandStr, nameStr, Some url)"
    and "try_steps b env cfg bg url (base_name brandStr nameStr)
           (working_file cfg (base_name brandStr nameStr))
           (final_file cfg (base_name brandStr nameStr)) (io ls) = (Inr u, s1)"
  shows "loop_body b env cfg bg limit item ls =
     (if limit_reached limit (processed ls + 1) then Break else Continue)
       (ls\<lparr>index := index ls + 1,
            outputs := outputs ls @ [output_record item (final_file cfg (base_name brandStr nameStr))],
            processed := processed ls + 1,
            io := emit (ConsoleLog (''Completed work: '' @ base_name brandStr nameStr @ ''.jpg''))
                    (emit (Push (output_record item (final_file cfg (base_name brandStr nameStr)))) s1)\<rparr>)"
  using assms by (simp add: loop_body_def Let_def)

section \<open>Events of the loop body\<close>

lemma new_eventsI: "trace s' = trace s @ evs \<Longrightarrow> new_events s s' = evs"
  by (simp add: new_events_def)

lemma image_path_join:
  assumes "list_all safe_char base"
  shows "image_path dir (path_join dir (base @ ''.jpg''))"
  using assms by (simp add: image_path_def path_join_def Let_def)

lemma base_name_safe: "list_all safe_char (base_name brandStr nameStr)"
  by (simp add: base_name_def toSafeFilename_safe)

lemma working_file_path: "image_path (workingDir cfg) (working_file cfg (base_name x y))"
  by (simp add: working_file_def image_path_join base_name_safe)

lemma final_file_path: "image_path (finalDir cfg) (final_file cfg (base_name x y))"
  by (simp add: final_file_def image_path_join base_name_safe)

lemma loop_body_events:
  "\<exists>evs. trace (io (result_state (loop_body b env cfg bg limit item ls))) = trace (io ls) @ evs
      \<and> advance Read evs \<noteq> None
      \<and> parsed_lines evs = []
      \<and> streams evs = (case prepare_item env item (index ls + 1) of
                         Inr (x, y, Some url) \<Rightarrow> [working_file cfg (base_name x y)]
                       | _ \<Rightarrow> [])
      \<and> list_all (\<lambda>fd. image_path (finalDir cfg) (fst fd)) (written evs)
      \<and> outputs (result_state (loop_body b env cfg bg limit item ls)) = outputs ls @ pushed evs
      \<and> processed (result_state (loop_body b env cfg bg limit item ls))
            = processed ls + length (pushed evs)
      \<and> length (pushed evs) \<le> 1
      \<and> index (result_state (loop_body b env cfg bg limit item ls)) = index ls + 1"
proof (cases "prepare_item env item (index ls + 1)")
  case (Inl e)
  then show ?thesis by (simp add: loop_body_abort)
next
  case (Inr t)
  then obtain brandStr nameStr u where prep:
    "prepare_item env item (index ls + 1) = Inr (brandStr, nameStr, u)" by (cases t) auto
  show ?thesis
  proof (cases u)
    case None
    with prep show ?thesis by (simp add: loop_body_skip)
  next
    case (Some url)
    define base where "base = base_name brandStr nameStr"
    obtain r s1 where steps: "try_steps b env cfg bg url base (working_file cfg base)
           (final_file cfg base) (io ls) = (r, s1)"
      by (cases "try_steps b env cfg bg url base (working_file cfg base) (final_file cfg base) (io ls)")
    from try_steps_events [OF steps] obtain evs q where e:
      "trace s1 = trace (io ls) @ ConsoleLog (''Began working on: '' @ base @ ''.jpg'')
                              # CreateWriteStream (working_file cfg base) # evs"
      "advance Downloading evs = Some q"
      "streams evs = []" "pushed evs = []" "parsed_lines evs = []"
      "case r of Inr u \<Rightarrow> q = Written \<and> (\<exists>d. written evs = [(final_file cfg base, d)])
                        | Inl e \<Rightarrow> written evs = [] \<or> (\<exists>d. written evs = [(final_file cfg base, d)])"
      by blast
    show ?thesis
    proof (cases r)
      case (Inl msg)
      with prep Some steps have body: "loop_body b env cfg bg limit item ls =
         Continue (ls\<lparr>index := index ls + 1,
                 io := emit (ConsoleError (failed_prefix b @ brandStr @ '' - '' @ nameStr
                                           @ '': '' @ msg)) s1\<rparr>)"
        by (simp add: loop_body_failure base_def)
      let ?evs = "ConsoleLog (''Began working on: '' @ base @ ''.jpg'')
                    # CreateWriteStream (working_file cfg base)
                    # (evs @ [ConsoleError (failed_prefix b @ brandStr @ '' - '' @ nameStr @ '': '' @ msg)])"
      have "advance Read ?evs = Some q"
        using advance_trans [OF e(2), of "[ConsoleError (failed_prefix b @ brandStr @ '' - '' @ nameStr @ '': '' @ msg)]" q]
        by simp
      moreover have "list_all (\<lambda>fd. image_path (finalDir cfg) (fst fd)) (written ?evs)"
        using e(6) Inl by (auto simp: base_def final_file_path)
      ultimately show ?thesis using e body
        using prep Some by (intro exI [of _ ?evs]) (simp add: base_def)
    next
      case (Inr u)
      with prep Some steps have body: "loop_body b env cfg bg limit item ls =
     (if limit_reached limit (processed ls + 1) then Break else Continue)
       (ls\<lparr>index := index ls + 1,
            outputs := outputs ls @ [output_record item (final_file cfg base)],
            processed := processed ls + 1,
            io := emit (ConsoleLog (''Completed work: '' @ base @ ''.jpg''))
                    (emit (Push (output_record item (final_file cfg base))) s1)\<rparr>)"
        by (simp add: loop_body_success base_def)
      let ?tail = "[Push (output_record item (final_file cfg base)),
                    ConsoleLog (''Completed work: '' @ base @ ''.jpg'')]"
      let ?evs = "ConsoleLog (''Began working on: '' @ base @ ''.jpg'')
                    # CreateWriteStream (working_file cfg base) # (evs @ ?tail)"
      from e(6) Inr have q: "q = Written" and w: "\<exists>d. written evs = [(final_file cfg base, d)]"
        by auto
      have "advance Read ?evs = Some Appended"
        using advance_trans [OF e(2), of ?tail Appended] q by simp
      moreover have "list_all (\<lambda>fd. image_path (finalDir cfg) (fst fd)) (written ?evs)"
        using w by (auto simp: base_def final_file_path)
      ultimately show ?thesis using e body
        using prep Some by (intro exI [of _ ?evs]) (simp add: base_def)
    qed
  qed
qed

section \<open>Events of the loop\<close>

lemma streams_case_facts:
  assumes "streams evs = (case prep of
                         Inr (x, y, Some url) \<Rightarrow> [working_file cfg (base_name x y)]
                       | _ \<Rightarrow> [])"
  shows "length (streams evs) \<le> 1" "list_all (image_path (workingDir cfg)) (streams evs)"
  using assms by (auto split: sum.splits option.splits prod.splits simp: working_file_path)

lemma readJsonl_turn_None:
  assumes "json_parse env line = None"
  shows "readJsonl_turn env line s =
           (None, emit (ConsoleWarn (''Skipping invalid JSONL line: '' @ line)) (emit (JsonParse line) s))"
  using assms by (simp add: readJsonl_turn_def)

lemma readJsonl_turn_Some:
  assumes "json_parse env line = Some item"
  shows "readJsonl_turn env line s = (Some item, emit (JsonParse line) s)"
  using assms by (simp add: readJsonl_turn_def)

lemma main_loop_events:
  "\<exists>evs. trace (io (run_state (main_loop b env cfg bg limit lines ls))) = trace (io ls) @ evs
     \<and> (\<forall>p. advance p evs \<noteq> None)
     \<and> prefix (parsed_lines evs) lines
     \<and> length (streams evs) \<le> length (parsed_lines evs)
     \<and> list_all (image_path (workingDir cfg)) (streams evs)
     \<and> list_all (\<lambda>fd. image_path (finalDir cfg) (fst fd)) (written evs)
     \<and> outputs (run_state (main_loop b env cfg bg limit lines ls)) = outputs ls @ pushed evs
     \<and> processed (run_state (main_loop b env cfg bg limit lines ls))
          = processed ls + length (pushed evs)"
proof (induction lines arbitrary: ls)
  case Nil
  show ?case by (intro exI [of _ "[]"]) simp
next
  case (Cons line rest)
  show ?case
  proof (cases "json_parse env line")
    case None
    let ?w = "ConsoleWarn (''Skipping invalid JSONL line: '' @ line)"
    let ?ls1 = "ls\<lparr>io := emit ?w (emit (JsonParse line) (io ls))\<rparr>"
    from None have step: "main_loop b env cfg bg limit (line # rest) ls
        = main_loop b env cfg bg limit rest ?ls1"
      by (simp add: readJsonl_turn_None)
    from Cons.IH [of ?ls1] obtain evs where e:
      "trace (io (run_state (main_loop b env cfg bg limit rest ?ls1))) = trace (io ?ls1) @ evs"
      "\<forall>p. advance p evs \<noteq> None"
      "prefix (parsed_lines evs) rest"
      "length (streams evs) \<le> length (parsed_lines evs)"
      "list_all (image_path (workingDir cfg)) (streams evs)"
      "list_all (\<lambda>fd. image_path (finalDir cfg) (fst fd)) (written evs)"
      "outputs (run_state (main_loop b env cfg bg limit rest ?ls1)) = outputs ?ls1 @ pushed evs"
      "processed (run_state (main_loop b env cfg bg limit rest ?ls1))
          = processed ?ls1 + length (pushed evs)"
      by blast
    show ?thesis unfolding step using e
      by (intro exI [of _ "JsonParse line # ?w # evs"]) simp
  next
    case (Some item)
    let ?ls0 = "ls\<lparr>io := emit (JsonParse line) (io ls)\<rparr>"
    let ?res = "loop_body b env cfg bg limit item ?ls0"
    from Some have step: "main_loop b env cfg bg limit (line # rest) ls
        = (case ?res of
             Continue ls1 \<Rightarrow> main_loop b env cfg bg limit rest ls1
           | Break ls1 \<Rightarrow> Finished ls1
           | Abort e ls1 \<Rightarrow> Uncaught e ls1)"
      by (simp add: readJsonl_turn_Some)
    from loop_body_events [of b env cfg bg limit item ?ls0] obtain evsB where eb:
      "trace (io (result_state ?res)) = trace (io ?ls0) @ evsB"
      "advance Read evsB \<noteq> None"
      "parsed_lines evsB = []"
      "streams evsB = (case prepare_item env item (index ?ls0 + 1) of
                         Inr (x, y, Some url) \<Rightarrow> [working_file cfg (base_name x y)]
                       | _ \<Rightarrow> [])"
      "list_all (\<lambda>fd. image_path (finalDir cfg) (fst fd)) (written evsB)"
      "outputs (result_state ?res) = outputs ?ls0 @ pushed evsB"
      "processed (result_state ?res) = processed ?ls0 + length (pushed evsB)"
      by blast
    note sb = streams_case_facts [OF eb(4)]
    from eb(2) obtain q where q: "advance Read evsB = Some q" by blast
    show ?thesis
    proof (cases ?res)
      case (Continue ls1)
      with step have run: "main_loop b env cfg bg limit (line # rest) ls
          = main_loop b env cfg bg limit rest ls1" by simp
      from Cons.IH [of ls1] obtain evs where e:
        "trace (io (run_state (main_loop b env cfg bg limit rest ls1))) = trace (io ls1) @ evs"
        "\<forall>p. advance p evs \<noteq> None"
        "prefix (parsed_lines evs) rest"
        "length (streams evs) \<le> length (parsed_lines evs)"
        "list_all (image_path (workingDir cfg)) (streams evs)"
        "list_all (\<lambda>fd. image_path (finalDir cfg) (fst fd)) (written evs)"
        "outputs (run_state (main_loop b env cfg bg limit rest ls1)) = outputs ls1 @ pushed evs"
        "processed (run_state (main_loop b env cfg bg limit rest ls1))
            = processed ls1 + length (pushed evs)"
        by blast
      have adv: "\<forall>p. advance p (JsonParse line # evsB @ evs) \<noteq> None"
        using q e(2) by (simp add: advance_append)
      show ?thesis unfolding run using e(1,3-) eb sb Continue adv
        by (intro exI [of _ "JsonParse line # evsB @ evs"]) simp
    next
      case (Break ls1)
      with step have run: "main_loop b env cfg bg limit (line # rest) ls = Finished ls1" by simp
      show ?thesis unfolding run using eb sb Break q
        by (intro exI [of _ "JsonParse line # evsB"]) simp
    next
      case (Abort e ls1)
      with step have run: "main_loop b env cfg bg limit (line # rest) ls = Uncaught e ls1" by simp
      show ?thesis unfolding run using eb sb Abort q
        by (intro exI [of _ "JsonParse line # evsB"]) simp
    qed
  qed
qed

section \<open>The first failing step\<close>

lemma try_steps_api_step:
  "try_steps b env cfg bg url base wfile ffile s =
     and_then (downloadFile env url wfile) (\<lambda>_.
       and_then (api_step b env cfg bg url wfile) (\<lambda>enhancedBuffer.
         perform (WriteFile ffile enhancedBuffer) (write_file_sync env ffile enhancedBuffer)))
       (emit (ConsoleLog (''Began working on: '' @ base @ ''.jpg'')) s)"
  by (cases b)
     (auto simp: try_steps_def api_step_def and_then_def Let_def split: prod.splits sum.splits)

lemma try_steps_attempt_error:
  "fst (try_steps b env cfg bg url base wfile ffile s) =
     (case attempt_error b env cfg bg url base wfile ffile s of Some e \<Rightarrow> Inl e | None \<Rightarrow> Inr ())"
  unfolding try_steps_api_step attempt_error_def
  by (auto simp: and_then_def perform_def split: prod.splits sum.splits)

lemma main_loop_new_events:
  "\<exists>evs. new_events (io ls) (io (run_state (main_loop b env cfg bg limit lines ls))) = evs
     \<and> trace (io (run_state (main_loop b env cfg bg limit lines ls))) = trace (io ls) @ evs
     \<and> (\<forall>p. advance p evs \<noteq> None)
     \<and> prefix (parsed_lines evs) lines
     \<and> length (streams evs) \<le> length (parsed_lines evs)
     \<and> list_all (image_path (workingDir cfg)) (streams evs)
     \<and> list_all (\<lambda>fd. image_path (finalDir cfg) (fst fd)) (written evs)
     \<and> outputs (run_state (main_loop b env cfg bg limit lines ls)) = outputs ls @ pushed evs
     \<and> processed (run_state (main_loop b env cfg bg limit lines ls))
          = processed ls + length (pushed evs)"
  using main_loop_events [of b env cfg bg limit lines ls] by (auto simp: new_events_def)

lemma try_steps_split:
  "try_steps b env cfg bg url base wfile ffile s =
     (fst (try_steps b env cfg bg url base wfile ffile s),
      snd (try_steps b env cfg bg url base wfile ffile s))"
  by simp

lemma loop_body_caught:
  assumes "prepare_item env item (index ls + 1) = Inr (brandStr, nameStr, Some url)"
    and "attempt_error b env cfg bg url (base_name brandStr nameStr)
           (working_file cfg (base_name brandStr nameStr))
           (final_file cfg (base_name brandStr nameStr)) (io ls) = Some msg"
  shows "loop_body b env cfg bg limit item ls =
     Continue (ls\<lparr>index := index ls + 1,
                 io := emit (ConsoleError (failed_prefix b @ brandStr @ '' - '' @ nameStr
                                           @ '': '' @ msg))
                         (snd (try_steps b env cfg bg url (base_name brandStr nameStr)
                                 (working_file cfg (base_name brandStr nameStr))
                                 (final_file cfg (base_name brandStr nameStr)) (io ls)))\<rparr>)"
proof -
  from assms(2) have "fst (try_steps b env cfg bg url (base_name brandStr nameStr)
           (working_file cfg (base_name brandStr nameStr))
           (final_file cfg (base_name brandStr nameStr)) (io ls)) = Inl msg"
    by (simp add: try_steps_attempt_error)
  then have "try_steps b env cfg bg url (base_name brandStr nameStr)
           (working_file cfg (base_name brandStr nameStr))
           (final_file cfg (base_name brandStr nameStr)) (io ls)
        = (Inl msg, snd (try_steps b env cfg bg url (base_name brandStr nameStr)
           (working_file cfg (base_name brandStr nameStr))
           (final_file cfg (base_name brandStr nameStr)) (io ls)))"
    by (metis prod.collapse)
  from loop_body_failure [OF assms(1) this] show ?thesis .
qed

lemma loop_body_completed:
  assumes "prepare_item env item (index ls + 1) = Inr (brandStr, nameStr, Some url)"
    and "attempt_error b env cfg bg url (base_name brandStr nameStr)
           (working_file cfg (base_name brandStr nameStr))
           (final_file cfg (base_name brandStr nameStr)) (io ls) = None"
  shows "loop_body b env cfg bg limit item ls =
     (if limit_reached limit (processed ls + 1) then Break else Continue)
       (ls\<lparr>index := index ls + 1,
            outputs := outputs ls @ [output_record item (final_file cfg (base_name brandStr nameStr))],
            processed := processed ls + 1,
            io := emit (ConsoleLog (''Completed work: '' @ base_name brandStr nameStr @ ''.jpg''))
                    (emit (Push (output_record item (final_file cfg (base_name brandStr nameStr))))
                       (snd (try_steps b env cfg bg url (base_name brandStr nameStr)
                                 (working_file cfg (base_name brandStr nameStr))
                                 (final_file cfg (base_name brandStr nameStr)) (io ls))))\<rparr>)"
proof -
  from assms(2) have "fst (try_steps b env cfg bg url (base_name brandStr nameStr)
           (working_file cfg (base_name brandStr nameStr))
           (final_file cfg (base_name brandStr nameStr)) (io ls)) = Inr ()"
    by (simp add: try_steps_attempt_error)
  then have "try_steps b env cfg bg url (base_name brandStr nameStr)
           (working_file cfg (base_name brandStr nameStr))
           (final_file cfg (base_name brandStr nameStr)) (io ls)
        = (Inr (), snd (try_steps b env cfg bg url (base_name brandStr nameStr)
           (working_file cfg (base_name brandStr nameStr))
           (final_file cfg (base_name brandStr nameStr)) (io ls)))"
    by (metis prod.collapse)
  from loop_body_success [OF assms(1) this] show ?thesis .
qed

lemma try_steps_streams:
  "streams (new_events s (snd (try_steps b env cfg bg url base wfile ffile s))) = [wfile]
   \<and> pushed (new_events s (snd (try_steps b env cfg bg url base wfile ffile s))) = []"
proof -
  obtain r s' where run: "try_steps b env cfg bg url base wfile ffile s = (r, s')"
    by (cases "try_steps b env cfg bg url base wfile ffile s")
  from try_steps_events [OF run] obtain evs where
    "trace s' = trace s @ ConsoleLog (''Began working on: '' @ base @ ''.jpg'')
                              # CreateWriteStream wfile # evs"
    "streams evs = []" "pushed evs = []" by blast
  with run show ?thesis by (simp add: new_events_def)
qed

lemma loop_body_outputs:
  "outputs (result_state (loop_body b env cfg bg limit item ls)) =
     outputs ls @
       (case prepare_item env item (index ls + 1) of
          Inr (x, y, Some url) \<Rightarrow>
            if attempt_error b env cfg bg url (base_name x y) (working_file cfg (base_name x y))
                 (final_file cfg (base_name x y)) (io ls) = None
            then [output_record item (final_file cfg (base_name x y))] else []
        | _ \<Rightarrow> [])"
proof (cases "prepare_item env item (index ls + 1)")
  case (Inl e)
  then show ?thesis by (simp add: loop_body_abort)
next
  case (Inr t)
  then obtain x y u where prep: "prepare_item env item (index ls + 1) = Inr (x, y, u)"
    by (cases t) auto
  show ?thesis
  proof (cases u)
    case None
    with prep show ?thesis by (simp add: loop_body_skip)
  next
    case (Some url)
    show ?thesis
    proof (cases "attempt_error b env cfg bg url (base_name x y) (working_file cfg (base_name x y))
                 (final_file cfg (base_name x y)) (io ls)")
      case None
      from loop_body_completed [OF prep [unfolded Some] None, of limit]
      show ?thesis using prep Some None by simp
    next
      case (Some msg)
      from loop_body_caught [OF prep [unfolded \<open>u = Some url\<close>] Some, of limit]
      show ?thesis using prep \<open>u = Some url\<close> Some by simp
    qed
  qed
qed

section \<open>File names and the order of the steps\<close>

text \<open>
  C9.  \<^verbatim>\<open>toSafeFilename\<close> returns a string of the same length, in which every character of
  \<^verbatim>\<open>[A-Za-z0-9._-]\<close> is kept and every other character is replaced by an underscore.  So
  every write stream the loop opens and every file it writes is named \<^verbatim>\<open><base>.jpg\<close> in the
  working or the final directory, with a base of characters of that set only.
\<close>

theorem safe_file_names:
  "length (toSafeFilename s) = length s
   \<and> toSafeFilename s = map (\<lambda>c. if safe_char c then c else CHR ''_'') s
   \<and> list_all safe_char (toSafeFilename s)
   \<and> list_all (image_path (workingDir cfg))
        (streams (new_events (io ls) (io (run_state (main_loop b env cfg bg limit lines ls)))))
   \<and> list_all (\<lambda>fd. image_path (finalDir cfg) (fst fd))
        (written (new_events (io ls) (io (run_state (main_loop b env cfg bg limit lines ls)))))"
proof -
  have "length (toSafeFilename s) = length s" by (simp add: toSafeFilename_map)
  moreover note toSafeFilename_map toSafeFilename_safe
  moreover from main_loop_new_events [of ls b env cfg bg limit lines]
  have "list_all (image_path (workingDir cfg))
        (streams (new_events (io ls) (io (run_state (main_loop b env cfg bg limit lines ls)))))"
    "list_all (\<lambda>fd. image_path (finalDir cfg) (fst fd))
        (written (new_events (io ls) (io (run_state (main_loop b env cfg bg limit lines ls)))))"
    by auto
  ultimately show ?thesis by blast
qed

theorem safe_file_names_witness:
  "toSafeFilename ''Afnan 9am/x_y-z.A'' = ''Afnan_9am_x_y-z.A''
   \<and> length (toSafeFilename ''a b'') = 3"
proof -
  have 1: "toSafeFilename ''Afnan 9am/x_y-z.A'' =
      map (\<lambda>c. if safe_char c then c else CHR ''_'') ''Afnan 9am/x_y-z.A''"
    using safe_file_names [of "''Afnan 9am/x_y-z.A''"] by blast
  have 2: "length (toSafeFilename ''a b'') = length ''a b''"
    using safe_file_names [of "''a b''"] by blast
  show ?thesis unfolding 1 2 by (simp add: safe_char_def)
qed


section \<open>Runs in the small environment\<close>

lemma demo_sel:
  "json_parse demo_env = demo_parse"
  "number_to_string demo_env = (\<lambda>n. ''number'')"
  "to_number demo_env = demo_number"
  "base64_decode demo_env = (\<lambda>b64. ''decoded '' @ b64)"
  "buffer_from_other demo_env = (\<lambda>v. Inl ''The first argument must be of type string'')"
  "base64_encode demo_env = (\<lambda>buf. ''encoded '' @ buf)"
  "https_get demo_env = demo_get"
  "create_write_stream demo_env = (\<lambda>f w. (f, []) # w)"
  "pipe_to_file demo_env = (\<lambda>f c w. (f, c) # w)"
  "unlink demo_env = (\<lambda>f w. filter (\<lambda>fc. fst fc \<noteq> f) w)"
  "read_file_sync demo_env = demo_read"
  "write_file_sync demo_env = (\<lambda>f d w. (Inr (), (f, d) # w))"
  "fetch demo_env = demo_fetch"
  "generate_content demo_env = (\<lambda>req w. (Inr gemini_reply, w))"
  by (simp_all add: demo_env_def)

lemma ro_sel:
  "json_parse read_only_env = demo_parse"
  "number_to_string read_only_env = (\<lambda>n. ''number'')"
  "base64_decode read_only_env = (\<lambda>b64. ''decoded '' @ b64)"
  "buffer_from_other read_only_env = (\<lambda>v. Inl ''The first argument must be of type string'')"
  "base64_encode read_only_env = (\<lambda>buf. ''encoded '' @ buf)"
  "https_get read_only_env = demo_get"
  "create_write_stream read_only_env = (\<lambda>f w. (f, []) # w)"
  "pipe_to_file read_only_env = (\<lambda>f c w. (f, c) # w)"
  "read_file_sync read_only_env = demo_read"
  "write_file_sync read_only_env =
     (\<lambda>f d w. if drop (length f - 4) f = ''.jpg'' then (Inl ''EACCES'', w) else (Inr (), (f, d) # w))"
  "generate_content read_only_env = (\<lambda>req w. (Inr gemini_reply, w))"
  by (simp_all add: read_only_env_def demo_env_def)

lemma demo_parse_lines:
  "demo_parse line_a = Some item_a" "demo_parse line_b = Some item_b"
  "demo_parse line_c = Some item_c" "demo_parse line_n = Some item_n"
  "demo_parse ''junk'' = None"
  by (simp_all add: demo_parse_def line_a_def line_b_def line_c_def line_n_def
      openrouter_reply_text_def)

lemma show_nat_digit: "n < 10 \<Longrightarrow> show_nat n = [digit_char n]"
  by (simp add: show_nat.simps)

lemma digit_chars:
  "digit_char 0 = CHR ''0''" "digit_char (Suc 0) = CHR ''1''" "digit_char 2 = CHR ''2''"
  by code_simp+

lemma demo_prepare:
  "prepare_item demo_env item_a idx = Inr (''Afnan'', ''9am'', Some (JStr ''https://ok/a.jpg''))"
  "prepare_item read_only_env item_a idx = Inr (''Afnan'', ''9am'', Some (JStr ''https://ok/a.jpg''))"
  "prepare_item demo_env item_b (Suc 0) = Inr (''brand'', ''x y'', Some (JStr ''https://down/b.jpg''))"
  "prepare_item demo_env item_c (Suc 0) = Inr (''brand'', ''item_1'', Some (JStr ''https://ok/c.jpg''))"
  "prepare_item demo_env item_n idx = Inr (''Zara'', ''item_'' @ show_nat idx, None)"
  by (simp_all add: prepare_item_def item_a_def item_b_def item_c_def item_n_def item_brand_def
      item_name_def truthy_url_def show_nat_digit digit_chars)

lemma demo_names:
  "base_name ''Afnan'' ''9am'' = ''Afnan_9am''"
  "base_name ''brand'' ''x y'' = ''brand_x_y''"
  "base_name ''brand'' ''item_1'' = ''brand_item_1''"
  by (simp_all add: base_name_def toSafeFilename_map safe_char_def)

lemma demo_download_ok:
  assumes "take 11 u = ''https://ok/''"
  shows "downloadFile demo_env (JStr u) f s =
     (Inr f, \<lparr>world = (f, ''JPEG'') # (f, []) # world s,
              trace = trace s @ [CreateWriteStream f, HttpsGet (JStr u), PipeToFile f ''JPEG'']\<rparr>)"
    and "downloadFile read_only_env (JStr u) f s =
     (Inr f, \<lparr>world = (f, ''JPEG'') # (f, []) # world s,
              trace = trace s @ [CreateWriteStream f, HttpsGet (JStr u), PipeToFile f ''JPEG'']\<rparr>)"
  using assms
  by (simp_all add: downloadFile_def update_def perform_def demo_sel ro_sel demo_get_def
      redirect_target_def Let_def)

lemma demo_download_down:
  "downloadFile demo_env (JStr ''https://down/b.jpg'') f s =
     (Inl ''ENOTFOUND'', \<lparr>world = filter (\<lambda>fc. fst fc \<noteq> f) ((f, []) # world s),
              trace = trace s @ [CreateWriteStream f, HttpsGet (JStr ''https://down/b.jpg''), Unlink f]\<rparr>)"
  by (simp add: downloadFile_def update_def perform_def demo_sel demo_get_def
      redirect_target_def Let_def)

lemma demo_gemini_decode:
  "gemini_decode demo_env gemini_reply = Inr ''decoded UE5H''"
  "gemini_decode read_only_env gemini_reply = Inr ''decoded UE5H''"
  by (simp_all add: gemini_decode_def gemini_reply_def buffer_from_def demo_sel ro_sel Let_def)

lemma demo_api_step:
  "api_step Google demo_env cfg bg url f \<lparr>world = (f, ''JPEG'') # w, trace = t\<rparr> =
     (Inr ''decoded UE5H'',
      \<lparr>world = (f, ''JPEG'') # w,
        trace = t @ [ReadFile f, GenerateContent (gemini_request ''encoded JPEG'' bg),
                     Decode gemini_reply]\<rparr>)"
  "api_step Google read_only_env cfg bg url f \<lparr>world = (f, ''JPEG'') # w, trace = t\<rparr> =
     (Inr ''decoded UE5H'',
      \<lparr>world = (f, ''JPEG'') # w,
        trace = t @ [ReadFile f, GenerateContent (gemini_request ''encoded JPEG'' bg),
                     Decode gemini_reply]\<rparr>)"
  by (simp_all add: api_step_def and_then_def perform_def emit_def enhanceImageWithGemini_def
      demo_gemini_decode demo_sel ro_sel demo_read_def Let_def)

lemma jpg_suffix: "drop (length (final_file cfg base) - 4) (final_file cfg base) = ''.jpg''"
  by (simp add: final_file_def path_join_def)

lemma demo_attempt_ok:
  assumes "take 11 u = ''https://ok/''"
  shows "attempt_error Google demo_env cfg bg (JStr u) base f g s = None"
  by (simp add: attempt_error_def demo_download_ok [OF assms] demo_api_step demo_sel)

lemma demo_attempt_down:
  "attempt_error b demo_env cfg bg (JStr ''https://down/b.jpg'') base f g s = Some ''ENOTFOUND''"
  by (simp add: attempt_error_def demo_download_down)

lemma ro_attempt:
  assumes "take 11 u = ''https://ok/''"
  shows "attempt_error Google read_only_env cfg bg (JStr u) base f (final_file cfg' base') s
           = Some ''EACCES''"
  by (simp add: attempt_error_def demo_download_ok [OF assms] demo_api_step ro_sel jpg_suffix)

section \<open>A record that fails\<close>

lemma main_loop_item:
  assumes "json_parse env line = Some item"
  shows "main_loop b env cfg bg limit (line # rest) ls =
     (case loop_body b env cfg bg limit item (ls\<lparr>io := emit (JsonParse line) (io ls)\<rparr>) of
        Continue ls1 \<Rightarrow> main_loop b env cfg bg limit rest ls1
      | Break ls1 \<Rightarrow> Finished ls1
      | Abort e ls1 \<Rightarrow> Uncaught e ls1)"
  using assms by (simp add: readJsonl_turn_Some)




section \<open>A record that succeeds\<close>

lemma api_step_quiet:
  assumes "api_step b env cfg bg url wfile s = (r, s')"
  shows "\<exists>evs. trace s' = trace s @ evs \<and> quiet evs"
proof (cases b)
  case Google
  with assms have "and_then (perform (ReadFile wfile) (read_file_sync env wfile))
            (\<lambda>inputBuffer. enhanceImageWithGemini env inputBuffer bg) s = (r, s')"
    by (simp add: api_step_def)
  then show ?thesis
  proof (cases rule: and_then_cases)
    case (fail e)
    from perform_trace [OF fail(1)] show ?thesis by (simp add: quiet_def)
  next
    case (pass x s1)
    from perform_trace [OF pass(1)] enhanceImageWithGemini_events [OF pass(2)]
    show ?thesis by (auto simp: quiet_def)
  qed
next
  case OpenRouter
  with assms enhanceImageWithOpenRouter_events [of env cfg openrouter_prompt_text url bg s r s']
  show ?thesis by (auto simp: api_step_def)
qed

lemma attempt_ok_run:
  assumes "attempt_error b env cfg bg url base wfile ffile s = None"
  shows "\<exists>buf s2 w evs.
           api_step b env cfg bg url wfile
             (snd (downloadFile env url wfile
                     (emit (ConsoleLog (''Began working on: '' @ base @ ''.jpg'')) s))) = (Inr buf, s2)
           \<and> write_file_sync env ffile buf (world s2) = (Inr (), w)
           \<and> try_steps b env cfg bg url base wfile ffile s
                = (Inr (), \<lparr>world = w, trace = trace s @ evs @ [WriteFile ffile buf]\<rparr>)
           \<and> written evs = [] \<and> pushed evs = []"
proof -
  let ?s0 = "emit (ConsoleLog (''Began working on: '' @ base @ ''.jpg'')) s"
  obtain r1 s1 where d: "downloadFile env url wfile ?s0 = (r1, s1)"
    by (cases "downloadFile env url wfile ?s0")
  obtain r2 s2 where a: "api_step b env cfg bg url wfile s1 = (r2, s2)"
    by (cases "api_step b env cfg bg url wfile s1")
  from assms d a obtain x buf where ok: "r1 = Inr x" "r2 = Inr buf"
    by (auto simp: attempt_error_def split: sum.splits prod.splits)
  obtain r3 w where wr: "write_file_sync env ffile buf (world s2) = (r3, w)"
    by (cases "write_file_sync env ffile buf (world s2)")
  with assms d a ok have r3: "r3 = Inr ()"
    by (auto simp: attempt_error_def split: sum.splits prod.splits)
  from downloadFile_events [OF d] obtain evs1 where e1:
    "trace s1 = trace ?s0 @ CreateWriteStream wfile # evs1" "quiet evs1" by blast
  from api_step_quiet [OF a] obtain evs2 where e2: "trace s2 = trace s1 @ evs2" "quiet evs2"
    by blast
  let ?evs = "ConsoleLog (''Began working on: '' @ base @ ''.jpg'')
                # CreateWriteStream wfile # evs1 @ evs2"
  from e1 e2 have t: "trace s2 = trace s @ ?evs" by simp
  have "try_steps b env cfg bg url base wfile ffile s
          = (Inr (), \<lparr>world = w, trace = trace s @ ?evs @ [WriteFile ffile buf]\<rparr>)"
    using d a ok wr r3 t
    by (simp add: try_steps_api_step and_then_def perform_def)
  moreover from e1 e2 have "written ?evs = []" "pushed ?evs = []" by (simp_all add: quiet_def)
  ultimately show ?thesis using d a ok wr r3 by (intro exI [of _ buf] exI [of _ s2] exI [of _ w] exI [of _ ?evs]) simp
qed

text \<open>
  C2.  The loop body appends to the outputs exactly when the item has a truthy image URL
  and the download, the call of the API and the writing of the final file all succeed, and
  then it appends one record; otherwise it leaves the outputs as they are.  Over a run the
  outputs grow by the records appended, one for each increment of the count of processed
  records, so from the initial state their number is that count.
\<close>

theorem one_entry_per_success:
  "outputs (result_state (loop_body b env cfg bg limit item ls)) =
     outputs ls @
       (case prepare_item env item (index ls + 1) of
          Inr (x, y, Some url) \<Rightarrow>
            if attempt_error b env cfg bg url (base_name x y) (working_file cfg (base_name x y))
                 (final_file cfg (base_name x y)) (io ls) = None
            then [output_record item (final_file cfg (base_name x y))] else []
        | _ \<Rightarrow> [])
   \<and> outputs (run_state (main_loop b env cfg bg limit lines start)) =
       outputs start
         @ pushed (new_events (io start) (io (run_state (main_loop b env cfg bg limit lines start))))
   \<and> processed (run_state (main_loop b env cfg bg limit lines start)) =
       processed start
         + length (pushed (new_events (io start)
                     (io (run_state (main_loop b env cfg bg limit lines start)))))
   \<and> length (outputs (run_state (main_loop b env cfg bg limit lines (initial_state s)))) =
       processed (run_state (main_loop b env cfg bg limit lines (initial_state s)))"
proof -
  note loop_body_outputs [of b env cfg bg limit item ls]
  moreover from main_loop_new_events [of start b env cfg bg limit lines]
  have "outputs (run_state (main_loop b env cfg bg limit lines start)) =
       outputs start
         @ pushed (new_events (io start) (io (run_state (main_loop b env cfg bg limit lines start))))"
    "processed (run_state (main_loop b env cfg bg limit lines start)) =
       processed start
         + length (pushed (new_events (io start)
                     (io (run_state (main_loop b env cfg bg limit lines start)))))"
    by auto
  moreover from main_loop_new_events [of "initial_state s" b env cfg bg limit lines]
  have "length (outputs (run_state (main_loop b env cfg bg limit lines (initial_state s)))) =
       processed (run_state (main_loop b env cfg bg limit lines (initial_state s)))"
    by (auto simp: initial_state_def)
  ultimately show ?thesis by blast
qed

theorem one_entry_per_success_witness:
  "outputs (result_state (loop_body Google demo_env (demo_cfg []) None None item_a
              (initial_state \<lparr>world = [], trace = []\<rparr>)))
     = [output_record item_a ''/p/final/Afnan_9am.jpg'']
   \<and> outputs (result_state (loop_body Google demo_env (demo_cfg []) None None item_b
              (initial_state \<lparr>world = [], trace = []\<rparr>))) = []
   \<and> outputs (result_state (loop_body Google demo_env (demo_cfg []) None None item_n
              (initial_state \<lparr>world = [], trace = []\<rparr>))) = []"
proof -
  let ?ls = "initial_state \<lparr>world = [], trace = []\<rparr> :: (string \<times> string) list loop_state"
  have inst: "outputs (result_state (loop_body Google demo_env (demo_cfg []) None None item ?ls)) =
     outputs ?ls @
       (case prepare_item demo_env item (index ?ls + 1) of
          Inr (x, y, Some url) \<Rightarrow>
            if attempt_error Google demo_env (demo_cfg []) None url (base_name x y)
                 (working_file (demo_cfg []) (base_name x y))
                 (final_file (demo_cfg []) (base_name x y)) (io ?ls) = None
            then [output_record item (final_file (demo_cfg []) (base_name x y))] else []
        | _ \<Rightarrow> [])" for item
    by (rule one_entry_per_success [where lines = "[]" and start = ?ls
          and s = "\<lparr>world = [], trace = []\<rparr>", THEN conjunct1])
  show ?thesis
    unfolding inst
    by (simp add: initial_state_def demo_prepare demo_attempt_ok demo_attempt_down demo_names
        final_file_def finalDir_def path_join_def demo_cfg_def)
qed

lemma success_run:
  assumes "prepare_item env item (index ls + 1) = Inr (brandStr, nameStr, Some url)"
    and "attempt_error b env cfg bg url (base_name brandStr nameStr)
           (working_file cfg (base_name brandStr nameStr))
           (final_file cfg (base_name brandStr nameStr)) (io ls) = None"
  shows "\<exists>buf s2.
           api_step b env cfg bg url (working_file cfg (base_name brandStr nameStr))
             (snd (downloadFile env url (working_file cfg (base_name brandStr nameStr))
                (emit (ConsoleLog (''Began working on: '' @ base_name brandStr nameStr @ ''.jpg''))
                   (io ls)))) = (Inr buf, s2)
           \<and> written (new_events (io ls) (io (result_state (loop_body b env cfg bg limit item ls))))
               = [(final_file cfg (base_name brandStr nameStr), buf)]
           \<and> world (io (result_state (loop_body b env cfg bg limit item ls)))
               = snd (write_file_sync env (final_file cfg (base_name brandStr nameStr)) buf (world s2))
           \<and> outputs (result_state (loop_body b env cfg bg limit item ls))
               = outputs ls @ [output_record item (final_file cfg (base_name brandStr nameStr))]"
proof -
  let ?base = "base_name brandStr nameStr"
  from attempt_ok_run [OF assms(2)] obtain buf s2 w evs where run:
    "api_step b env cfg bg url (working_file cfg ?base)
             (snd (downloadFile env url (working_file cfg ?base)
                     (emit (ConsoleLog (''Began working on: '' @ ?base @ ''.jpg'')) (io ls))))
       = (Inr buf, s2)"
    "write_file_sync env (final_file cfg ?base) buf (world s2) = (Inr (), w)"
    "try_steps b env cfg bg url ?base (working_file cfg ?base) (final_file cfg ?base) (io ls)
       = (Inr (), \<lparr>world = w, trace = trace (io ls) @ evs @ [WriteFile (final_file cfg ?base) buf]\<rparr>)"
    "written evs = []" "pushed evs = []"
    by blast
  from loop_body_success [OF assms(1) run(3), of limit]
  have body: "result_state (loop_body b env cfg bg limit item ls) =
      ls\<lparr>index := index ls + 1,
         outputs := outputs ls @ [output_record item (final_file cfg ?base)],
         processed := processed ls + 1,
         io := emit (ConsoleLog (''Completed work: '' @ ?base @ ''.jpg''))
                 (emit (Push (output_record item (final_file cfg ?base)))
                    \<lparr>world = w, trace = trace (io ls) @ evs @ [WriteFile (final_file cfg ?base) buf]\<rparr>)\<rparr>"
    by simp
  from run(2,4) have
    "written (new_events (io ls) (io (result_state (loop_body b env cfg bg limit item ls))))
       = [(final_file cfg ?base, buf)]"
    "world (io (result_state (loop_body b env cfg bg limit item ls)))
       = snd (write_file_sync env (final_file cfg ?base) buf (world s2))"
    "outputs (result_state (loop_body b env cfg bg limit item ls))
       = outputs ls @ [output_record item (final_file cfg ?base)]"
    unfolding body by (simp_all add: new_events_def emit_def)
  with run(1) show ?thesis by blast
qed

text \<open>
  C7, as amended.  For an item that is not \<^verbatim>\<open>null\<close>, has a brand and a name with a string form
  and a truthy image URL, and that the loop reaches: when the download succeeds, the API
  call returns an image and the writing of the final file succeeds, the loop body writes
  the image under the name made of the sanitized brand and name, in the final directory,
  and appends the record of the item.
\<close>

theorem success_writes_file_and_entry:
  assumes "prepare_item env item (index ls + 1) = Inr (brandStr, nameStr, Some url)"
    and "attempt_error b env cfg bg url (base_name brandStr nameStr)
           (working_file cfg (base_name brandStr nameStr))
           (final_file cfg (base_name brandStr nameStr)) (io ls) = None"
  shows "\<exists>buf s2.
           api_step b env cfg bg url (working_file cfg (base_name brandStr nameStr))
             (snd (downloadFile env url (working_file cfg (base_name brandStr nameStr))
                (emit (ConsoleLog (''Began working on: '' @ base_name brandStr nameStr @ ''.jpg''))
                   (io ls)))) = (Inr buf, s2)
           \<and> written (new_events (io ls) (io (result_state (loop_body b env cfg bg limit item ls))))
               = [(final_file cfg (base_name brandStr nameStr), buf)]
           \<and> world (io (result_state (loop_body b env cfg bg limit item ls)))
               = snd (write_file_sync env (final_file cfg (base_name brandStr nameStr)) buf (world s2))
           \<and> outputs (result_state (loop_body b env cfg bg limit item ls))
               = outputs ls @ [output_record item (final_file cfg (base_name brandStr nameStr))]
           \<and> get_prop (output_record item (final_file cfg (base_name brandStr nameStr)))
                 ''localUpdatedFile''
               = Some (JStr (final_file cfg (base_name brandStr nameStr)))"
proof -
  have field: "get_prop (JObj (set_field k v kvs)) k = Some v" for k v kvs
    by (induction kvs) auto
  from success_run [OF assms, of limit] field [of "''localUpdatedFile''"] show ?thesis
    unfolding output_record_def by blast
qed

theorem success_writes_file_and_entry_witness:
  "written (new_events \<lparr>world = [], trace = []\<rparr>
      (io (result_state (loop_body Google demo_env (demo_cfg []) None None item_a
             (initial_state \<lparr>world = [], trace = []\<rparr>)))))
     = [(''/p/final/Afnan_9am.jpg'', ''decoded UE5H'')]
   \<and> outputs (result_state (loop_body Google demo_env (demo_cfg []) None None item_a
             (initial_state \<lparr>world = [], trace = []\<rparr>)))
     = [JObj [(''brand'', JStr ''Afnan''), (''name'', JStr ''9am''),
              (''imageUrl'', JStr ''https://ok/a.jpg''),
              (''localUpdatedFile'', JStr ''/p/final/Afnan_9am.jpg'')]]"
proof -
  let ?ls = "initial_state \<lparr>world = [], trace = []\<rparr> :: (string \<times> string) list loop_state"
  have 1: "prepare_item demo_env item_a (index ?ls + 1)
             = Inr (''Afnan'', ''9am'', Some (JStr ''https://ok/a.jpg''))"
    by (rule demo_prepare)
  have 2: "attempt_error Google demo_env (demo_cfg []) None (JStr ''https://ok/a.jpg'')
             (base_name ''Afnan'' ''9am'') (working_file (demo_cfg []) (base_name ''Afnan'' ''9am''))
             (final_file (demo_cfg []) (base_name ''Afnan'' ''9am'')) (io ?ls) = None"
    by (rule demo_attempt_ok) simp
  from success_writes_file_and_entry [OF 1 2, of None] obtain buf s2 where w:
    "api_step Google demo_env (demo_cfg []) None (JStr ''https://ok/a.jpg'')
       (working_file (demo_cfg []) (base_name ''Afnan'' ''9am''))
       (snd (downloadFile demo_env (JStr ''https://ok/a.jpg'')
          (working_file (demo_cfg []) (base_name ''Afnan'' ''9am''))
          (emit (ConsoleLog (''Began working on: '' @ base_name ''Afnan'' ''9am'' @ ''.jpg''))
             (io ?ls)))) = (Inr buf, s2)"
    "written (new_events (io ?ls) (io (result_state (loop_body Google demo_env (demo_cfg []) None None item_a ?ls))))
       = [(final_file (demo_cfg []) (base_name ''Afnan'' ''9am''), buf)]"
    "outputs (result_state (loop_body Google demo_env (demo_cfg []) None None item_a ?ls))
       = outputs ?ls @ [output_record item_a (final_file (demo_cfg []) (base_name ''Afnan'' ''9am''))]"
    by blast
  from w(1) have "buf = ''decoded UE5H''"
    by (simp add: demo_download_ok demo_api_step)
  with w(2,3) show ?thesis
    by (simp add: initial_state_def demo_names final_file_def finalDir_def path_join_def
        demo_cfg_def output_record_def item_a_def)
qed

lemma ro_try_steps:
  assumes "take 11 u = ''https://ok/''"
  shows "try_steps Google read_only_env cfg bg (JStr u) base f (final_file cfg' base') s =
     (Inl ''EACCES'',
      \<lparr>world = (f, ''JPEG'') # (f, []) # world s,
        trace = trace s @ [ConsoleLog (''Began working on: '' @ base @ ''.jpg''),
                           CreateWriteStream f, HttpsGet (JStr u), PipeToFile f ''JPEG'',
                           ReadFile f, GenerateContent (gemini_request ''encoded JPEG'' bg),
                           Decode gemini_reply,
                           WriteFile (final_file cfg' base') ''decoded UE5H'']\<rparr>)"
  by (simp add: try_steps_api_step and_then_def demo_download_ok [OF assms] demo_api_step
      perform_def emit_def ro_sel jpg_suffix)

text \<open>
  C7, as stated, fails where the final file cannot be written: the download succeeds and
  the API returns an image, and the run ends with no manifest entry and no final file.
\<close>

theorem write_failure_counterexample:
  "json_parse read_only_env line_a = Some item_a
   \<and> get_prop item_a ''imageUrl'' = Some (JStr ''https://ok/a.jpg'')
   \<and> fst (downloadFile read_only_env (JStr ''https://ok/a.jpg'') ''/p/working/Afnan_9am.jpg''
            \<lparr>world = [], trace = [JsonParse line_a, ConsoleLog ''Began working on: Afnan_9am.jpg'']\<rparr>)
       = Inr ''/p/working/Afnan_9am.jpg''
   \<and> fst (api_step Google read_only_env (demo_cfg []) None (JStr ''https://ok/a.jpg'')
            ''/p/working/Afnan_9am.jpg''
            (snd (downloadFile read_only_env (JStr ''https://ok/a.jpg'') ''/p/working/Afnan_9am.jpg''
               \<lparr>world = [], trace = [JsonParse line_a, ConsoleLog ''Began working on: Afnan_9am.jpg'']\<rparr>)))
       = Inr ''decoded UE5H''
   \<and> outputs (run_state (main_loop Google read_only_env (demo_cfg []) None None [line_a]
                 (initial_state \<lparr>world = [], trace = []\<rparr>))) = []
   \<and> map_of (world (io (run_state (main_loop Google read_only_env (demo_cfg []) None None [line_a]
                 (initial_state \<lparr>world = [], trace = []\<rparr>))))) ''/p/final/Afnan_9am.jpg'' = None"
proof -
  let ?ls = "initial_state \<lparr>world = [], trace = []\<rparr> :: (string \<times> string) list loop_state"
  have p: "json_parse read_only_env line_a = Some item_a" by (simp add: ro_sel demo_parse_lines)
  have u: "get_prop item_a ''imageUrl'' = Some (JStr ''https://ok/a.jpg'')"
    by (simp add: item_a_def)
  have d: "fst (downloadFile read_only_env (JStr ''https://ok/a.jpg'') ''/p/working/Afnan_9am.jpg''
            \<lparr>world = [], trace = [JsonParse line_a, ConsoleLog ''Began working on: Afnan_9am.jpg'']\<rparr>)
       = Inr ''/p/working/Afnan_9am.jpg''"
    by (simp add: demo_download_ok)
  have a: "fst (api_step Google read_only_env (demo_cfg []) None (JStr ''https://ok/a.jpg'')
            ''/p/working/Afnan_9am.jpg''
            (snd (downloadFile read_only_env (JStr ''https://ok/a.jpg'') ''/p/working/Afnan_9am.jpg''
               \<lparr>world = [], trace = [JsonParse line_a, ConsoleLog ''Began working on: Afnan_9am.jpg'']\<rparr>)))
       = Inr ''decoded UE5H''"
    by (simp add: demo_download_ok demo_api_step)
  have prep: "prepare_item read_only_env item_a (index (?ls\<lparr>io := emit (JsonParse line_a) (io ?ls)\<rparr>) + 1)
       = Inr (''Afnan'', ''9am'', Some (JStr ''https://ok/a.jpg''))"
    by (rule demo_prepare)
  have steps: "try_steps Google read_only_env (demo_cfg []) None (JStr ''https://ok/a.jpg'')
       (base_name ''Afnan'' ''9am'') (working_file (demo_cfg []) (base_name ''Afnan'' ''9am''))
       (final_file (demo_cfg []) (base_name ''Afnan'' ''9am''))
       (io (?ls\<lparr>io := emit (JsonParse line_a) (io ?ls)\<rparr>)) =
     (Inl ''EACCES'',
      \<lparr>world = (working_file (demo_cfg []) (base_name ''Afnan'' ''9am''), ''JPEG'')
                # (working_file (demo_cfg []) (base_name ''Afnan'' ''9am''), []) # [],
        trace = [JsonParse line_a,
                 ConsoleLog (''Began working on: '' @ base_name ''Afnan'' ''9am'' @ ''.jpg''),
                 CreateWriteStream (working_file (demo_cfg []) (base_name ''Afnan'' ''9am'')),
                 HttpsGet (JStr ''https://ok/a.jpg''),
                 PipeToFile (working_file (demo_cfg []) (base_name ''Afnan'' ''9am'')) ''JPEG'',
                 ReadFile (working_file (demo_cfg []) (base_name ''Afnan'' ''9am'')),
                 GenerateContent (gemini_request ''encoded JPEG'' None),
                 Decode gemini_reply,
                 WriteFile (final_file (demo_cfg []) (base_name ''Afnan'' ''9am'')) ''decoded UE5H'']\<rparr>)"
    by (simp add: ro_try_steps initial_state_def)
  note body = loop_body_failure [OF prep steps, of None]
  have run: "main_loop Google read_only_env (demo_cfg []) None None [line_a] ?ls =
      Finished (result_state (loop_body Google read_only_env (demo_cfg []) None None item_a
                  (?ls\<lparr>io := emit (JsonParse line_a) (io ?ls)\<rparr>)))"
    unfolding main_loop_item [OF p] body by simp
  have "outputs (run_state (main_loop Google read_only_env (demo_cfg []) None None [line_a] ?ls)) = []"
    "map_of (world (io (run_state (main_loop Google read_only_env (demo_cfg []) None None [line_a] ?ls))))
       ''/p/final/Afnan_9am.jpg'' = None"
    unfolding run body
    by (simp_all add: initial_state_def emit_def demo_names
        working_file_def workingDir_def path_join_def demo_cfg_def)
  with p u d a show ?thesis by blast
qed

section \<open>Lines that do not parse\<close>











section \<open>The limit\<close>



















section \<open>The manifest\<close>

lemma get_prop_set_field:
  "map_of (set_field k v kvs) k' = (if k' = k then Some v else map_of kvs k')"
  by (induction kvs) auto

lemma keys_set_field:
  "map fst (set_field k v kvs) = (if k \<in> set (map fst kvs) then map fst kvs else map fst kvs @ [k])"
  by (induction kvs) auto

lemma truthy_url_object:
  assumes "truthy_url item = Some url"
  shows "\<exists>kvs. item = JObj kvs"
  using assms by (cases item) (simp_all add: truthy_url_def)

lemma read_background_events:
  assumes "read_background env cfg s = (bg, s')"
  shows "\<exists>evs. trace s' = trace s @ evs \<and> written evs = []"
  using assms
  by (auto simp: read_background_def Let_def perform_def emit_def split: if_splits prod.splits sum.splits)

lemma ensureDirSync_events:
  assumes "ensureDirSync env d s = (r, s')"
  shows "\<exists>evs. trace s' = trace s @ evs \<and> written evs = []"
  using assms
  by (auto simp: ensureDirSync_def Let_def perform_def emit_def split: if_splits prod.splits)

lemma prepare_events:
  assumes "prepare b env cfg s = (r, s')"
  shows "\<exists>evs. trace s' = trace s @ evs \<and> written evs = []"
proof -
  obtain bg s1 where rb: "read_background env cfg s = (bg, s1)"
    by (cases "read_background env cfg s")
  from read_background_events [OF rb] obtain evs1 where e1:
    "trace s1 = trace s @ evs1" "written evs1 = []" by blast
  from assms rb have run: "and_then (ensureDirSync env (workingDir cfg)) (\<lambda>_.
          and_then (ensureDirSync env (finalDir cfg)) (\<lambda>_.
          and_then (case b of Google \<Rightarrow> perform NewClient (new_client env)
                            | OpenRouter \<Rightarrow> (\<lambda>s. (Inr (), s))) (\<lambda>_ s.
            (Inr (background_for b bg), s)))) s1 = (r, s')"
    by (simp add: prepare_def)
  have "\<exists>evs. trace s' = trace s1 @ evs \<and> written evs = []"
    using run
  proof (cases rule: and_then_cases)
    case (fail e)
    from ensureDirSync_events [OF fail(1)] show ?thesis .
  next
    case (pass x s2)
    from ensureDirSync_events [OF pass(1)] obtain evs2 where e2:
      "trace s2 = trace s1 @ evs2" "written evs2 = []" by blast
    from pass(2) show ?thesis
    proof (cases rule: and_then_cases)
      case (fail e)
      from ensureDirSync_events [OF fail(1)] e2 show ?thesis by auto
    next
      case (pass y s3)
      from ensureDirSync_events [OF pass(1)] obtain evs3 where e3:
        "trace s3 = trace s2 @ evs3" "written evs3 = []" by blast
      have "\<exists>evs. trace s' = trace s3 @ evs \<and> written evs = []"
        using pass(2)
        by (cases b) (auto simp: and_then_def perform_def split: prod.splits sum.splits)
      with e2 e3 show ?thesis by auto
    qed
  qed
  with e1 show ?thesis by auto
qed

lemma readJsonl_lines_events:
  assumes "readJsonl_lines env f s = (r, s')"
  shows "trace s' = trace s @ [ReadFile f]"
  using assms
  by (auto simp: readJsonl_lines_def perform_def split: prod.splits sum.splits)

lemma write_manifest_events:
  "\<exists>tail. trace (snd (write_manifest env cfg outs s)) =
            trace s @ WriteFile (dataJsonPath cfg) (json_stringify env (JArr outs)) # tail
          \<and> written tail = []"
  by (auto simp: write_manifest_def perform_def emit_def split: prod.splits sum.splits)

lemma manifest_is_no_image: "\<not> image_path (finalDir cfg) (dataJsonPath cfg)"
  by (simp add: image_path_def dataJsonPath_def path_join_def Let_def)

lemma images_not_manifest:
  assumes "list_all (\<lambda>fd. image_path (finalDir cfg) (fst fd)) ws"
  shows "dataJsonPath cfg \<notin> fst ` set ws"
  using assms manifest_is_no_image [of cfg] by (auto simp: list_all_iff)

lemma prepare_item_url:
  assumes "prepare_item env item idx = Inr (x, y, u)"
  shows "u = truthy_url item"
  using assms by (auto simp: prepare_item_def split: if_splits sum.splits)

lemma main_finished:
  assumes "prepare b env cfg s = (Inr bg, s1)"
    and "readJsonl_lines env (jsonlPath cfg) s1 = (Inr lines, s2)"
    and "main_loop b env cfg bg (parse_limit env (argv cfg)) lines (initial_state s2) = Finished final"
  shows "snd (main b env cfg s) = snd (write_manifest env cfg (outputs final) (io final))"
  using assms by (simp add: main_def split: prod.splits sum.splits)

lemma main_written:
  assumes "prepare b env cfg s = (Inr bg, s1)"
    and "readJsonl_lines env (jsonlPath cfg) s1 = (Inr lines, s2)"
    and "main_loop b env cfg bg (parse_limit env (argv cfg)) lines (initial_state s2) = Finished final"
  shows "written (new_events s (snd (main b env cfg s))) =
           written (new_events s2 (io final))
             @ [(dataJsonPath cfg, json_stringify env (JArr (outputs final)))]
         \<and> dataJsonPath cfg \<notin> fst ` set (written (new_events s2 (io final)))"
proof -
  from prepare_events [OF assms(1)] obtain evsP where p:
    "trace s1 = trace s @ evsP" "written evsP = []" by blast
  note r = readJsonl_lines_events [OF assms(2)]
  from main_loop_new_events [of "initial_state s2" b env cfg bg "parse_limit env (argv cfg)" lines]
    assms(3)
  obtain evsL where l: "new_events s2 (io final) = evsL" "trace (io final) = trace s2 @ evsL"
    "list_all (\<lambda>fd. image_path (finalDir cfg) (fst fd)) (written evsL)"
    by (auto simp: initial_state_def)
  from write_manifest_events [of env cfg "outputs final" "io final"] obtain tail where w:
    "trace (snd (write_manifest env cfg (outputs final) (io final))) =
       trace (io final) @ WriteFile (dataJsonPath cfg) (json_stringify env (JArr (outputs final))) # tail"
    "written tail = []" by blast
  from p r l w have "trace (snd (main b env cfg s)) =
      trace s @ (evsP @ ReadFile (jsonlPath cfg) # evsL
        @ WriteFile (dataJsonPath cfg) (json_stringify env (JArr (outputs final))) # tail)"
    by (simp add: main_finished [OF assms])
  then have "new_events s (snd (main b env cfg s)) =
      evsP @ ReadFile (jsonlPath cfg) # evsL
        @ WriteFile (dataJsonPath cfg) (json_stringify env (JArr (outputs final))) # tail"
    by (rule new_eventsI)
  with p w l images_not_manifest [OF l(3)] show ?thesis by simp
qed

text \<open>
  C3, as amended.  The record appended for an item is the item with its fields in their
  order, each with its value, except the field \<^verbatim>\<open>localUpdatedFile\<close>: it holds the path of the
  final file that was written, in the place of a field of that name when the item has one,
  and as a new last field otherwise.  A run that comes to the end of the loop then writes
  the list of the records, as one JSON array, to \<^verbatim>\<open>data.json\<close> in the final directory; it
  writes that file once, also when the list is empty.
\<close>

theorem record_and_manifest:
  "(prepare_item env item (index ls + 1) = Inr (brandStr, nameStr, Some url)
      \<and> attempt_error b env cfg bg url (base_name brandStr nameStr)
           (working_file cfg (base_name brandStr nameStr))
           (final_file cfg (base_name brandStr nameStr)) (io ls) = None
     \<longrightarrow> (\<exists>kvs buf.
            item = JObj kvs
            \<and> written (new_events (io ls) (io (result_state (loop_body b env cfg bg limit item ls))))
                = [(final_file cfg (base_name brandStr nameStr), buf)]
            \<and> outputs (result_state (loop_body b env cfg bg limit item ls))
                = outputs ls @ [JObj (set_field ''localUpdatedFile''
                                   (JStr (final_file cfg (base_name brandStr nameStr))) kvs)]
            \<and> (\<forall>k. map_of (set_field ''localUpdatedFile''
                               (JStr (final_file cfg (base_name brandStr nameStr))) kvs) k
                    = (if k = ''localUpdatedFile''
                       then Some (JStr (final_file cfg (base_name brandStr nameStr)))
                       else map_of kvs k))
            \<and> map fst (set_field ''localUpdatedFile''
                          (JStr (final_file cfg (base_name brandStr nameStr))) kvs)
                = (if ''localUpdatedFile'' \<in> set (map fst kvs) then map fst kvs
                   else map fst kvs @ [''localUpdatedFile''])))
   \<and> (prepare b env cfg s = (Inr background, prepared)
      \<and> readJsonl_lines env (jsonlPath cfg) prepared = (Inr lines, opened)
      \<and> main_loop b env cfg background (parse_limit env (argv cfg)) lines (initial_state opened)
           = Finished final
     \<longrightarrow> written (new_events s (snd (main b env cfg s))) =
           written (new_events opened (io final))
             @ [(dataJsonPath cfg, json_stringify env (JArr (outputs final)))]
         \<and> dataJsonPath cfg \<notin> fst ` set (written (new_events opened (io final))))"
proof (rule conjI; rule impI)
  assume a: "prepare_item env item (index ls + 1) = Inr (brandStr, nameStr, Some url)
      \<and> attempt_error b env cfg bg url (base_name brandStr nameStr)
           (working_file cfg (base_name brandStr nameStr))
           (final_file cfg (base_name brandStr nameStr)) (io ls) = None"
  let ?ff = "final_file cfg (base_name brandStr nameStr)"
  from a prepare_item_url [of env item "index ls + 1" brandStr nameStr "Some url"]
  have "truthy_url item = Some url" by simp
  from truthy_url_object [OF this] obtain kvs where obj: "item = JObj kvs" by blast
  from a success_run [of env item ls brandStr nameStr url b cfg bg limit] obtain buf where run:
    "written (new_events (io ls) (io (result_state (loop_body b env cfg bg limit item ls))))
       = [(?ff, buf)]"
    "outputs (result_state (loop_body b env cfg bg limit item ls))
       = outputs ls @ [output_record item ?ff]" by blast
  from obj have "output_record item ?ff = JObj (set_field ''localUpdatedFile'' (JStr ?ff) kvs)"
    by (simp add: output_record_def)
  with obj run get_prop_set_field [of "''localUpdatedFile''" "JStr ?ff" kvs]
    keys_set_field [of "''localUpdatedFile''" "JStr ?ff" kvs]
  show "\<exists>kvs buf.
            item = JObj kvs
            \<and> written (new_events (io ls) (io (result_state (loop_body b env cfg bg limit item ls))))
                = [(?ff, buf)]
            \<and> outputs (result_state (loop_body b env cfg bg limit item ls))
                = outputs ls @ [JObj (set_field ''localUpdatedFile'' (JStr ?ff) kvs)]
            \<and> (\<forall>k. map_of (set_field ''localUpdatedFile'' (JStr ?ff) kvs) k
                    = (if k = ''localUpdatedFile'' then Some (JStr ?ff) else map_of kvs k))
            \<and> map fst (set_field ''localUpdatedFile'' (JStr ?ff) kvs)
                = (if ''localUpdatedFile'' \<in> set (map fst kvs) then map fst kvs
                   else map fst kvs @ [''localUpdatedFile''])"
    by (intro exI [of _ kvs] exI [of _ buf]) simp
next
  assume "prepare b env cfg s = (Inr background, prepared)
      \<and> readJsonl_lines env (jsonlPath cfg) prepared = (Inr lines, opened)
      \<and> main_loop b env cfg background (parse_limit env (argv cfg)) lines (initial_state opened)
           = Finished final"
  then show "written (new_events s (snd (main b env cfg s))) =
           written (new_events opened (io final))
             @ [(dataJsonPath cfg, json_stringify env (JArr (outputs final)))]
         \<and> dataJsonPath cfg \<notin> fst ` set (written (new_events opened (io final)))"
    using main_written [of b env cfg s background prepared lines opened final] by blast
qed

lemma demo_sel_more:
  "json_stringify demo_env =
     (\<lambda>j. case j of JArr xs \<Rightarrow> ''array of '' @ show_nat (length xs) | _ \<Rightarrow> ''value'')"
  "exists_sync demo_env = (\<lambda>f w. map_of w f \<noteq> None)"
  "mkdir_sync demo_env = (\<lambda>f w. (Inr (), (f, []) # w))"
  "new_client demo_env = (\<lambda>w. (Inr (), w))"
  by (simp_all add: demo_env_def)

lemma demo_prepare_run:
  "fst (prepare Google demo_env (demo_cfg []) \<lparr>world = demo_disk [], trace = []\<rparr>) = Inr None"
  by (simp add: prepare_def read_background_def ensureDirSync_def and_then_def perform_def
      emit_def Let_def demo_sel_more demo_disk_def bgPath_def workingDir_def finalDir_def
      path_join_def demo_cfg_def background_for_def)

lemma demo_read_lines:
  "fst (readJsonl_lines demo_env (jsonlPath (demo_cfg []))
          (snd (prepare Google demo_env (demo_cfg []) \<lparr>world = demo_disk [], trace = []\<rparr>)))
     = Inr []"
  by (simp add: prepare_def read_background_def ensureDirSync_def and_then_def perform_def
      emit_def Let_def demo_sel_more demo_disk_def bgPath_def workingDir_def finalDir_def
      path_join_def demo_cfg_def background_for_def readJsonl_lines_def jsonlPath_def
      demo_sel demo_read_def)

theorem record_and_manifest_witness:
  "outputs (result_state (loop_body Google demo_env (demo_cfg []) None None item_a
             (initial_state \<lparr>world = [], trace = []\<rparr>)))
     = [JObj [(''brand'', JStr ''Afnan''), (''name'', JStr ''9am''),
              (''imageUrl'', JStr ''https://ok/a.jpg''),
              (''localUpdatedFile'', JStr ''/p/final/Afnan_9am.jpg'')]]
   \<and> written (new_events \<lparr>world = demo_disk [], trace = []\<rparr>
        (snd (main Google demo_env (demo_cfg []) \<lparr>world = demo_disk [], trace = []\<rparr>)))
     = [(''/p/final/data.json'', ''array of 0'')]"
proof -
  let ?ls = "initial_state \<lparr>world = [], trace = []\<rparr> :: (string \<times> string) list loop_state"
  let ?s = "\<lparr>world = demo_disk [], trace = []\<rparr>"
  let ?s1 = "snd (prepare Google demo_env (demo_cfg []) ?s)"
  let ?s2 = "snd (readJsonl_lines demo_env (jsonlPath (demo_cfg [])) ?s1)"
  note inst = record_and_manifest [where env = demo_env and b = Google and cfg = "demo_cfg []"
      and bg = None and limit = None and item = item_a and ls = ?ls and s = ?s and prepared = ?s1
      and opened = ?s2 and background = None and lines = "[]" and final = "initial_state ?s2"
      and brandStr = "''Afnan''" and nameStr = "''9am''" and url = "JStr ''https://ok/a.jpg''"]
  have 1: "prepare_item demo_env item_a (index ?ls + 1)
             = Inr (''Afnan'', ''9am'', Some (JStr ''https://ok/a.jpg''))"
    by (rule demo_prepare)
  have 2: "attempt_error Google demo_env (demo_cfg []) None (JStr ''https://ok/a.jpg'')
             (base_name ''Afnan'' ''9am'') (working_file (demo_cfg []) (base_name ''Afnan'' ''9am''))
             (final_file (demo_cfg []) (base_name ''Afnan'' ''9am'')) (io ?ls) = None"
    by (rule demo_attempt_ok) simp
  from inst [THEN conjunct1] 1 2 obtain kvs where r:
    "item_a = JObj kvs"
    "outputs (result_state (loop_body Google demo_env (demo_cfg []) None None item_a ?ls))
       = outputs ?ls @ [JObj (set_field ''localUpdatedFile''
                          (JStr (final_file (demo_cfg []) (base_name ''Afnan'' ''9am''))) kvs)]"
    by blast
  from r have A: "outputs (result_state (loop_body Google demo_env (demo_cfg []) None None item_a ?ls))
     = [JObj [(''brand'', JStr ''Afnan''), (''name'', JStr ''9am''),
              (''imageUrl'', JStr ''https://ok/a.jpg''),
              (''localUpdatedFile'', JStr ''/p/final/Afnan_9am.jpg'')]]"
    by (auto simp: item_a_def initial_state_def demo_names final_file_def finalDir_def
        path_join_def demo_cfg_def)
  have 3: "prepare Google demo_env (demo_cfg []) ?s = (Inr None, ?s1)"
    using demo_prepare_run by (metis prod.collapse)
  have 4: "readJsonl_lines demo_env (jsonlPath (demo_cfg [])) ?s1 = (Inr [], ?s2)"
    using demo_read_lines by (metis prod.collapse)
  have 5: "main_loop Google demo_env (demo_cfg []) None (parse_limit demo_env (argv (demo_cfg [])))
             [] (initial_state ?s2) = Finished (initial_state ?s2)"
    by simp
  from inst [THEN conjunct2] 3 4 5
  have "written (new_events ?s (snd (main Google demo_env (demo_cfg []) ?s))) =
           written (new_events ?s2 (io (initial_state ?s2)))
             @ [(dataJsonPath (demo_cfg []),
                 json_stringify demo_env (JArr (outputs (initial_state ?s2))))]"
    by blast
  then have B: "written (new_events ?s (snd (main Google demo_env (demo_cfg []) ?s)))
     = [(''/p/final/data.json'', ''array of 0'')]"
    by (simp add: new_events_def initial_state_def dataJsonPath_def finalDir_def path_join_def
        demo_cfg_def demo_sel_more show_nat_digit digit_chars)
  from A B show ?thesis by blast
qed

text \<open>
  C3, as stated, fails for an item that has a field \<^verbatim>\<open>localUpdatedFile\<close>: the record appended
  has the fields of the item and no other, and the value of that field is not the item's.
\<close>

theorem field_override_counterexample:
  "json_parse demo_env line_c = Some item_c
   \<and> item_c = JObj [(''imageUrl'', JStr ''https://ok/c.jpg''), (''localUpdatedFile'', JStr ''old'')]
   \<and> outputs (run_state (main_loop Google demo_env (demo_cfg []) None None [line_c]
                 (initial_state \<lparr>world = [], trace = []\<rparr>)))
       = [JObj [(''imageUrl'', JStr ''https://ok/c.jpg''),
                (''localUpdatedFile'', JStr ''/p/final/brand_item_1.jpg'')]]"
proof -
  let ?ls = "initial_state \<lparr>world = [], trace = []\<rparr> :: (string \<times> string) list loop_state"
  let ?ls1 = "?ls\<lparr>io := emit (JsonParse line_c) (io ?ls)\<rparr>"
  have p: "json_parse demo_env line_c = Some item_c" by (simp add: demo_sel demo_parse_lines)
  have prep: "prepare_item demo_env item_c (index ?ls1 + 1)
       = Inr (''brand'', ''item_1'', Some (JStr ''https://ok/c.jpg''))"
    by (simp add: initial_state_def demo_prepare)
  have ok: "attempt_error Google demo_env (demo_cfg []) None (JStr ''https://ok/c.jpg'')
       (base_name ''brand'' ''item_1'') (working_file (demo_cfg []) (base_name ''brand'' ''item_1''))
       (final_file (demo_cfg []) (base_name ''brand'' ''item_1'')) (io ?ls1) = None"
    by (rule demo_attempt_ok) simp
  note body = loop_body_completed [OF prep ok, of None]
  have "outputs (run_state (main_loop Google demo_env (demo_cfg []) None None [line_c] ?ls))
       = [JObj [(''imageUrl'', JStr ''https://ok/c.jpg''),
                (''localUpdatedFile'', JStr ''/p/final/brand_item_1.jpg'')]]"
    unfolding main_loop_item [OF p] body
    by (simp add: initial_state_def output_record_def item_c_def demo_names final_file_def
        finalDir_def path_join_def demo_cfg_def)
  with p show ?thesis by (simp add: item_c_def)
qed

section \<open>The decoder as a table\<close>

lemma canonical_upper: "canonicalize ` char_of ` {65 ..< 91::nat} = char_of ` {65 ..< 91::nat}"
proof -
  have "(canonicalize \<circ> char_of) ` {65 ..< 91::nat} = char_of ` {65 ..< 91::nat}"
    by (rule image_cong [OF refl]) (simp add: canonicalize_char_of_other)
  then show ?thesis by (simp add: image_comp)
qed

lemma plus_code: "char_of (43::nat) = CHR ''+''"
  by code_simp

lemma canonical_mime_punct: "canonicalize ` set ''+.-'' = char_of ` {43, 46, 45::nat}"
  by (simp add: canonicalize_def punct_codes plus_code)

lemma canonical_mime_members:
  "set (map canonicalize mime_members) =
     char_of ` ({65 ..< 91} \<union> {48 ..< 58} \<union> {43, 46, 45::nat})"
proof -
  have "set (map canonicalize mime_members) =
      canonicalize ` char_of ` {97 ..< 123::nat} \<union> canonicalize ` char_of ` {65 ..< 91::nat}
      \<union> canonicalize ` char_of ` {48 ..< 58::nat} \<union> canonicalize ` set ''+.-''"
    unfolding mime_members_def set_map set_append image_Un set_upt by (simp only: Un_assoc)
  also have "\<dots> = char_of ` {65 ..< 91::nat} \<union> char_of ` {48 ..< 58::nat} \<union> char_of ` {43, 46, 45::nat}"
    by (simp only: canonical_lower canonical_upper canonical_digits canonical_mime_punct Un_absorb)
  finally show ?thesis by (simp only: image_Un)
qed

lemma mime_class_matches_code:
  "mime_class_matches c \<longleftrightarrow>
     (of_char (canonicalize c) :: nat) \<in> {65 ..< 91} \<union> {48 ..< 58} \<union> {43, 46, 45}"
proof -
  have small: "\<forall>n\<in>{65 ..< 91} \<union> {48 ..< 58} \<union> {43, 46, 45::nat}. n < 256" by auto
  show ?thesis
    unfolding mime_class_matches_def canonical_mime_members char_of_image_iff [OF small] ..
qed

lemma canonical_eq_iff:
  "canonicalize c = canonicalize p \<longleftrightarrow>
     (if 97 \<le> (of_char c :: nat) \<and> (of_char c :: nat) \<le> 122 then of_char c - 32 else (of_char c :: nat))
       = (if 97 \<le> (of_char p :: nat) \<and> (of_char p :: nat) \<le> 122 then of_char p - 32 else of_char p)"
proof -
  have "canonicalize c = canonicalize p \<longleftrightarrow>
      (of_char (canonicalize c) :: nat) = of_char (canonicalize p)"
    by simp
  then show ?thesis unfolding canonicalize_code .
qed

lemma payload_demo:
  "data_url_payload ''data:image/png;base64,UE5H'' = Some ''UE5H''"
  "data_url_payload [] = None"
  "data_url_payload ''https://ok/out.png'' = None"
  by (simp_all add: data_url_payload_def canonical_eq_iff mime_class_matches_code canonicalize_code
      dot_matches_def)

lemma first_of_append:
  "first_of f (xs @ ys) s =
     (case first_of f xs s of
        (Inl e, s1) \<Rightarrow> (Inl e, s1)
      | (Inr (Some buf), s1) \<Rightarrow> (Inr (Some buf), s1)
      | (Inr None, s1) \<Rightarrow> first_of f ys s1)"
  by (induction xs arbitrary: s) (auto split: prod.splits sum.splits option.splits)

lemma first_of_map: "first_of f (map g xs) s = first_of (\<lambda>x. f (g x)) xs s"
  by (induction xs arbitrary: s) (auto split: prod.splits sum.splits option.splits)

lemma try_candidate_entry: "(\<lambda>x. try_candidate env (ImagesEntry x)) = images_entry env"
  by (intro ext) simp

lemma try_candidate_part: "(\<lambda>x. try_candidate env (ContentPart x)) = content_part env"
  by (intro ext) simp

lemma images_entry_none:
  assumes "images_entry env img s = (Inr None, s')"
  shows "s' = s"
  using assms
  by (auto simp: images_entry_def split: option.splits prod.splits sum.splits if_splits)

lemma content_part_none:
  assumes "content_part env part s = (Inr None, s')"
  shows "s' = s"
  using assms
  by (auto simp: content_part_def split: option.splits prod.splits sum.splits if_splits)

lemma try_candidate_none:
  assumes "try_candidate env c s = (Inr None, s')"
  shows "s' = s"
  using assms by (cases c) (auto dest: images_entry_none content_part_none)

lemma first_of_none:
  assumes "list_all (\<lambda>c. fst (try_candidate env c s) = Inr None) cs"
  shows "first_of (try_candidate env) cs s = (Inr None, s)"
  using assms
proof (induction cs)
  case Nil
  show ?case by simp
next
  case (Cons c cs)
  then have "fst (try_candidate env c s) = Inr None" by simp
  then obtain s' where t: "try_candidate env c s = (Inr None, s')"
    by (cases "try_candidate env c s") auto
  from try_candidate_none [OF t] t Cons show ?case by simp
qed

lemma decoder_table:
  "extractImageBufferFromOpenRouterResponse env json s = first_yield env (envelope_candidates json) s"
proof -
  define message where "message = opt_prop (opt_first (get_prop json ''choices'')) ''message''"
  define imgs where "imgs = (case opt_prop message ''images'' of Some (JArr xs) \<Rightarrow> xs | _ \<Rightarrow> [])"
  define content where "content = opt_prop message ''content''"
  have images: "(case opt_prop message ''images'' of
                   Some (JArr xs) \<Rightarrow> first_of (images_entry env) xs s | _ \<Rightarrow> (Inr None, s))
                = first_of (images_entry env) imgs s"
    by (auto simp: imgs_def split: option.splits json.splits)
  have cands: "envelope_candidates json =
      map ImagesEntry imgs
        @ (case content of Some (JArr parts) \<Rightarrow> map ContentPart parts
                         | Some (JStr c) \<Rightarrow> [ContentString c] | _ \<Rightarrow> [])"
    by (auto simp: envelope_candidates_def Let_def message_def imgs_def content_def
        split: option.splits json.splits)
  have entry: "first_of (try_candidate env) (map ImagesEntry imgs) s = first_of (images_entry env) imgs s"
    by (simp add: first_of_map try_candidate_entry)
  obtain r1 s1 where p1: "first_of (images_entry env) imgs s = (r1, s1)"
    by (cases "first_of (images_entry env) imgs s")
  have rest: "(case (case content of Some (JArr parts) \<Rightarrow> first_of (content_part env) parts s1
                                  | _ \<Rightarrow> (Inr None, s1)) of
                (Inl e, s2) \<Rightarrow> (Inl e, s2)
              | (Inr (Some buf), s2) \<Rightarrow> (Inr buf, s2)
              | (Inr None, s2) \<Rightarrow>
                  (if is_string content
                   then (case extractBase64FromDataUrl content of
                           Some b64 \<Rightarrow> (Inr (base64_decode env b64), s2)
                         | None \<Rightarrow> (Inl no_image, s2))
                   else (Inl no_image, s2)))
        = (case first_of (try_candidate env)
                  (case content of Some (JArr parts) \<Rightarrow> map ContentPart parts
                                 | Some (JStr c) \<Rightarrow> [ContentString c] | _ \<Rightarrow> []) s1 of
             (Inl e, s2) \<Rightarrow> (Inl e, s2)
           | (Inr (Some buf), s2) \<Rightarrow> (Inr buf, s2)
           | (Inr None, s2) \<Rightarrow> (Inl no_image, s2))"
  proof (cases content)
    case None
    then show ?thesis by simp
  next
    case (Some v)
    then show ?thesis
      by (cases v) (auto simp: first_of_map try_candidate_part
          split: prod.splits sum.splits option.splits)
  qed
  show ?thesis
    unfolding extractImageBufferFromOpenRouterResponse_def Let_def first_yield_def cands
      first_of_append entry message_def [symmetric] content_def [symmetric] images p1
    using rest by (auto split: sum.splits option.splits prod.splits)
qed

lemma first_of_at:
  assumes "list_all (\<lambda>c. fst (try_candidate env c s) = Inr None) pre"
  shows "first_of (try_candidate env) (pre @ c # post) s =
           (case try_candidate env c s of
              (Inl e, s1) \<Rightarrow> (Inl e, s1)
            | (Inr (Some buf), s1) \<Rightarrow> (Inr (Some buf), s1)
            | (Inr None, s1) \<Rightarrow> first_of (try_candidate env) post s1)"
  by (simp add: first_of_append first_of_none [OF assms])

lemma first_of_decides:
  assumes "first_of (try_candidate env) cs s = (r, s')"
  shows "(r = Inr None \<and> s' = s \<and> list_all (\<lambda>c. fst (try_candidate env c s) = Inr None) cs)
       \<or> (\<exists>pre c post. cs = pre @ c # post
             \<and> list_all (\<lambda>c. fst (try_candidate env c s) = Inr None) pre
             \<and> try_candidate env c s = (r, s') \<and> r \<noteq> Inr None)"
  using assms
proof (induction cs)
  case Nil
  then show ?case by auto
next
  case (Cons c cs)
  obtain r1 s1 where t: "try_candidate env c s = (r1, s1)"
    by (cases "try_candidate env c s")
  show ?case
  proof (cases "r1 = Inr None")
    case True
    with t have same: "s1 = s" by (auto dest: try_candidate_none)
    with t True Cons.prems have "first_of (try_candidate env) cs s = (r, s')" by simp
    from Cons.IH [OF this] show ?thesis
    proof
      assume "r = Inr None \<and> s' = s \<and> list_all (\<lambda>c. fst (try_candidate env c s) = Inr None) cs"
      with t True show ?thesis by simp
    next
      assume "\<exists>pre c post. cs = pre @ c # post
             \<and> list_all (\<lambda>c. fst (try_candidate env c s) = Inr None) pre
             \<and> try_candidate env c s = (r, s') \<and> r \<noteq> Inr None"
      then obtain pre d post where d: "cs = pre @ d # post"
          "list_all (\<lambda>c. fst (try_candidate env c s) = Inr None) pre"
          "try_candidate env d s = (r, s')" "r \<noteq> Inr None"
        by blast
      from d(1) have "c # cs = (c # pre) @ d # post" by simp
      moreover from d(2) t True
      have "list_all (\<lambda>c. fst (try_candidate env c s) = Inr None) (c # pre)" by simp
      ultimately show ?thesis using d(3,4) by blast
    qed
  next
    case False
    with t Cons.prems have "r = r1" "s' = s1"
      by (auto split: sum.splits option.splits)
    with t False have "c # cs = [] @ c # cs" "list_all (\<lambda>c. fst (try_candidate env c s) = Inr None) []"
        "try_candidate env c s = (r, s')" "r \<noteq> Inr None"
      by simp_all
    then show ?thesis by blast
  qed
qed

text \<open>
  C4, as amended.  The decoder reads the table of envelope shapes from the top: the entries
  of \<^verbatim>\<open>message.images\<close>, then the parts of an array content (each tried as
  \<^verbatim>\<open>output_image\<close>, \<^verbatim>\<open>image_url\<close> and \<^verbatim>\<open>text\<close>) or a string content.  Entries that yield
  nothing are passed over.  The first entry that yields bytes gives the result; the first
  entry that raises (a fetch that fails, a payload that cannot be turned into a buffer) gives
  the error, and no later entry is tried.  When no entry yields or raises, the error is
  ``did not include an image''.  An error is raised in these two ways only.
\<close>

theorem decoder_first_decisive_shape:
  "extractImageBufferFromOpenRouterResponse env json s = first_yield env (envelope_candidates json) s
   \<and> (list_all (\<lambda>c. fst (try_candidate env c s) = Inr None) (envelope_candidates json)
        \<longrightarrow> extractImageBufferFromOpenRouterResponse env json s = (Inl no_image, s))
   \<and> (envelope_candidates json = pre @ c # post
        \<and> list_all (\<lambda>c. fst (try_candidate env c s) = Inr None) pre
        \<and> try_candidate env c s = (Inr (Some buf), after)
        \<longrightarrow> extractImageBufferFromOpenRouterResponse env json s = (Inr buf, after))
   \<and> (envelope_candidates json = pre @ c # post
        \<and> list_all (\<lambda>c. fst (try_candidate env c s) = Inr None) pre
        \<and> try_candidate env c s = (Inl e, after)
        \<longrightarrow> extractImageBufferFromOpenRouterResponse env json s = (Inl e, after))
   \<and> (fst (extractImageBufferFromOpenRouterResponse env json s) = Inl thrown
        \<longrightarrow> (thrown = no_image
               \<and> list_all (\<lambda>c. fst (try_candidate env c s) = Inr None) (envelope_candidates json))
            \<or> (\<exists>before c after. envelope_candidates json = before @ c # after
                  \<and> list_all (\<lambda>c. fst (try_candidate env c s) = Inr None) before
                  \<and> fst (try_candidate env c s) = Inl thrown))"
proof (intro conjI impI)
  show "extractImageBufferFromOpenRouterResponse env json s
          = first_yield env (envelope_candidates json) s"
    by (rule decoder_table)
next
  assume "list_all (\<lambda>c. fst (try_candidate env c s) = Inr None) (envelope_candidates json)"
  then show "extractImageBufferFromOpenRouterResponse env json s = (Inl no_image, s)"
    by (simp add: decoder_table first_yield_def first_of_none)
next
  assume "envelope_candidates json = pre @ c # post
        \<and> list_all (\<lambda>c. fst (try_candidate env c s) = Inr None) pre
        \<and> try_candidate env c s = (Inr (Some buf), after)"
  then show "extractImageBufferFromOpenRouterResponse env json s = (Inr buf, after)"
    by (simp add: decoder_table first_yield_def first_of_at)
next
  assume "envelope_candidates json = pre @ c # post
        \<and> list_all (\<lambda>c. fst (try_candidate env c s) = Inr None) pre
        \<and> try_candidate env c s = (Inl e, after)"
  then show "extractImageBufferFromOpenRouterResponse env json s = (Inl e, after)"
    by (simp add: decoder_table first_yield_def first_of_at)
next
  assume thrown: "fst (extractImageBufferFromOpenRouterResponse env json s) = Inl thrown"
  obtain r s' where f: "first_of (try_candidate env) (envelope_candidates json) s = (r, s')"
    by (cases "first_of (try_candidate env) (envelope_candidates json) s")
  from first_of_decides [OF f]
  show "(thrown = no_image
               \<and> list_all (\<lambda>c. fst (try_candidate env c s) = Inr None) (envelope_candidates json))
            \<or> (\<exists>before c after. envelope_candidates json = before @ c # after
                  \<and> list_all (\<lambda>c. fst (try_candidate env c s) = Inr None) before
                  \<and> fst (try_candidate env c s) = Inl thrown)"
  proof
    assume "r = Inr None \<and> s' = s
        \<and> list_all (\<lambda>c. fst (try_candidate env c s) = Inr None) (envelope_candidates json)"
    with thrown f show ?thesis by (simp add: decoder_table first_yield_def)
  next
    assume "\<exists>pre c post. envelope_candidates json = pre @ c # post
             \<and> list_all (\<lambda>c. fst (try_candidate env c s) = Inr None) pre
             \<and> try_candidate env c s = (r, s') \<and> r \<noteq> Inr None"
    then obtain pre d post where d: "envelope_candidates json = pre @ d # post"
        "list_all (\<lambda>c. fst (try_candidate env c s) = Inr None) pre"
        "try_candidate env d s = (r, s')" "r \<noteq> Inr None"
      by blast
    from thrown f d(4) have "r = Inl thrown"
      by (auto simp: decoder_table first_yield_def split: sum.splits option.splits)
    with d(3) have "fst (try_candidate env d s) = Inl thrown" by simp
    with d(1,2) show ?thesis by blast
  qed
qed

lemma demo_candidates:
  "envelope_candidates (JObj []) = []"
  "envelope_candidates openrouter_reply =
     [ImagesEntry (JObj [(''type'', JStr ''image_url''),
        (''image_url'', JObj [(''url'', JStr ''data:image/png;base64,UE5H'')])]),
      ContentString []]"
  "envelope_candidates blocked_reply =
     [ImagesEntry (JObj [(''type'', JStr ''image_url''),
        (''image_url'', JObj [(''url'', JStr ''https://ok/out.png'')])]),
      ContentString ''data:image/png;base64,UE5H'']"
  by (simp_all add: envelope_candidates_def openrouter_reply_def blocked_reply_def Let_def)

lemma demo_entries:
  "try_candidate demo_env (ImagesEntry (JObj [(''type'', JStr ''image_url''),
        (''image_url'', JObj [(''url'', JStr ''data:image/png;base64,UE5H'')])])) s
     = (Inr (Some ''decoded UE5H''), s)"
  "try_candidate demo_env (ImagesEntry (JObj [(''type'', JStr ''image_url''),
        (''image_url'', JObj [(''url'', JStr ''https://ok/out.png'')])])) s
     = (Inl ''fetch failed'',
        emit (Fetch \<lparr>req_url = JStr ''https://ok/out.png'', req_method = ''GET'',
                      req_headers = [], req_body = None\<rparr>) s)"
  "try_candidate demo_env (ContentString ''data:image/png;base64,UE5H'') s
     = (Inr (Some ''decoded UE5H''), s)"
  by (simp_all add: images_entry_def image_url_of_def payload_demo demo_sel
      fetchImageAsBuffer_def perform_def demo_fetch_def Let_def)

theorem decoder_first_decisive_shape_witness:
  "extractImageBufferFromOpenRouterResponse demo_env (JObj []) \<lparr>world = [], trace = []\<rparr>
     = (Inl no_image, \<lparr>world = [], trace = []\<rparr>)
   \<and> extractImageBufferFromOpenRouterResponse demo_env openrouter_reply \<lparr>world = [], trace = []\<rparr>
     = (Inr ''decoded UE5H'', \<lparr>world = [], trace = []\<rparr>)
   \<and> extractImageBufferFromOpenRouterResponse demo_env blocked_reply \<lparr>world = [], trace = []\<rparr>
     = (Inl ''fetch failed'',
        \<lparr>world = [],
         trace = [Fetch \<lparr>req_url = JStr ''https://ok/out.png'', req_method = ''GET'',
                         req_headers = [], req_body = None\<rparr>]\<rparr>)
   \<and> (\<exists>before c after. envelope_candidates blocked_reply = before @ c # after
         \<and> list_all (\<lambda>c. fst (try_candidate demo_env c \<lparr>world = [], trace = []\<rparr>) = Inr None) before
         \<and> fst (try_candidate demo_env c \<lparr>world = [], trace = []\<rparr>) = Inl ''fetch failed'')"
proof -
  let ?s = "\<lparr>world = [], trace = []\<rparr> :: (string \<times> string) list st"
  let ?data = "ImagesEntry (JObj [(''type'', JStr ''image_url''),
        (''image_url'', JObj [(''url'', JStr ''data:image/png;base64,UE5H'')])])"
  let ?link = "ImagesEntry (JObj [(''type'', JStr ''image_url''),
        (''image_url'', JObj [(''url'', JStr ''https://ok/out.png'')])])"
  let ?fetched = "emit (Fetch \<lparr>req_url = JStr ''https://ok/out.png'', req_method = ''GET'',
                      req_headers = [], req_body = None\<rparr>) ?s"
  have empty: "extractImageBufferFromOpenRouterResponse demo_env (JObj []) ?s = (Inl no_image, ?s)"
    using decoder_first_decisive_shape [where env = demo_env and json = "JObj []" and s = ?s,
        THEN conjunct2, THEN conjunct1]
    by (simp add: demo_candidates)
  have yields: "extractImageBufferFromOpenRouterResponse demo_env openrouter_reply ?s
                  = (Inr ''decoded UE5H'', ?s)"
    using decoder_first_decisive_shape [where env = demo_env and json = openrouter_reply
        and s = ?s and pre = "[]" and c = ?data and post = "[ContentString []]"
        and buf = "''decoded UE5H''" and after = ?s,
        THEN conjunct2, THEN conjunct2, THEN conjunct1]
    by (simp add: demo_candidates demo_entries del: try_candidate.simps)
  have raises: "extractImageBufferFromOpenRouterResponse demo_env blocked_reply ?s
                  = (Inl ''fetch failed'', ?fetched)"
    using decoder_first_decisive_shape [where env = demo_env and json = blocked_reply
        and s = ?s and pre = "[]" and c = ?link
        and post = "[ContentString ''data:image/png;base64,UE5H'']"
        and e = "''fetch failed''" and after = ?fetched,
        THEN conjunct2, THEN conjunct2, THEN conjunct2, THEN conjunct1]
    by (simp add: demo_candidates demo_entries del: try_candidate.simps)
  have "fst (extractImageBufferFromOpenRouterResponse demo_env blocked_reply ?s) = Inl ''fetch failed''"
    by (simp add: raises)
  with decoder_first_decisive_shape [where env = demo_env and json = blocked_reply
        and s = ?s and thrown = "''fetch failed''",
        THEN conjunct2, THEN conjunct2, THEN conjunct2, THEN conjunct2]
  have only: "\<exists>before c after. envelope_candidates blocked_reply = before @ c # after
         \<and> list_all (\<lambda>c. fst (try_candidate demo_env c ?s) = Inr None) before
         \<and> fst (try_candidate demo_env c ?s) = Inl ''fetch failed''"
    by (simp add: no_image_def)
  from empty yields raises only show ?thesis by (simp add: emit_def)
qed

text \<open>
  C4, as stated, fails on a reply whose first \<^verbatim>\<open>message.images\<close> entry names an image by an
  address to fetch and whose content is a string holding a data URL.  The fetch fails, and the
  decoder raises the error of the fetch; the string content, which yields bytes, is not tried.
\<close>

theorem failed_fetch_counterexample:
  "fst (extractImageBufferFromOpenRouterResponse demo_env blocked_reply \<lparr>world = [], trace = []\<rparr>)
     = Inl ''fetch failed''
   \<and> opt_prop (opt_prop (opt_first (get_prop blocked_reply ''choices'')) ''message'') ''content''
     = Some (JStr ''data:image/png;base64,UE5H'')
   \<and> is_string (Some (JStr ''data:image/png;base64,UE5H''))
   \<and> extractBase64FromDataUrl (Some (JStr ''data:image/png;base64,UE5H'')) = Some ''UE5H''
   \<and> fst (extractImageBufferFromOpenRouterResponse demo_env
            (JObj [(''choices'', JArr [JObj [(''message'',
               JObj [(''content'', JStr ''data:image/png;base64,UE5H'')])]])])
            \<lparr>world = [], trace = []\<rparr>)
     = Inr ''decoded UE5H''"
  by (simp add: extractImageBufferFromOpenRouterResponse_def blocked_reply_def Let_def
      images_entry_def image_url_of_def payload_demo demo_sel fetchImageAsBuffer_def
      perform_def demo_fetch_def)

end
